theory Spec2Isabelle
  imports Complex_Main
begin

section \<open>Numbers\<close>

text \<open>
  Every quantity of the engine (\<^verbatim>\<open>femCalculations.ts\<close>) is a JavaScript \<^verbatim>\<open>number\<close>.
  A number is modelled as a real extended by the three special values the code can
  produce and test: \<open>NaN\<close> and the two infinities. Finite arithmetic is exact: rounding,
  overflow of a finite result and the sign of zero are not modelled (a division of a
  non-zero finite number by zero yields the infinity with the sign of the numerator).
  The value of a finite computation can therefore differ from the rounded value the
  engine gets. The properties below are stated in these operations themselves, on the
  numbers the engine computes (its \<open>nx\<close>, its test \<open>tolerance + 1 > tolerance\<close>), and where a
  property needs a loop to be entered or the generator to return, that is a hypothesis.
\<close>

datatype jsnum = NaN | NegInf | is_Fin: Fin (the_real: real) | PosInf

definition inf_of_sign :: "real \<Rightarrow> jsnum" where
  "inf_of_sign s = (if 0 < s then PosInf else if s < 0 then NegInf else NaN)"

fun js_neg :: "jsnum \<Rightarrow> jsnum" where
  "js_neg NaN = NaN"
| "js_neg NegInf = PosInf"
| "js_neg (Fin a) = Fin (- a)"
| "js_neg PosInf = NegInf"

fun js_add :: "jsnum \<Rightarrow> jsnum \<Rightarrow> jsnum" where
  "js_add (Fin a) (Fin b) = Fin (a + b)"
| "js_add NaN _ = NaN"
| "js_add _ NaN = NaN"
| "js_add PosInf NegInf = NaN"
| "js_add NegInf PosInf = NaN"
| "js_add PosInf _ = PosInf"
| "js_add _ PosInf = PosInf"
| "js_add NegInf _ = NegInf"
| "js_add _ NegInf = NegInf"

definition js_sub :: "jsnum \<Rightarrow> jsnum \<Rightarrow> jsnum" where
  "js_sub a b = js_add a (js_neg b)"

fun js_mul :: "jsnum \<Rightarrow> jsnum \<Rightarrow> jsnum" where
  "js_mul (Fin a) (Fin b) = Fin (a * b)"
| "js_mul NaN _ = NaN"
| "js_mul _ NaN = NaN"
| "js_mul PosInf (Fin b) = inf_of_sign b"
| "js_mul (Fin a) PosInf = inf_of_sign a"
| "js_mul NegInf (Fin b) = inf_of_sign (- b)"
| "js_mul (Fin a) NegInf = inf_of_sign (- a)"
| "js_mul PosInf PosInf = PosInf"
| "js_mul NegInf NegInf = PosInf"
| "js_mul PosInf NegInf = NegInf"
| "js_mul NegInf PosInf = NegInf"

fun js_div :: "jsnum \<Rightarrow> jsnum \<Rightarrow> jsnum" where
  "js_div (Fin a) (Fin b) = (if b = 0 then inf_of_sign a else Fin (a / b))"
| "js_div NaN _ = NaN"
| "js_div _ NaN = NaN"
| "js_div (Fin a) _ = Fin 0"
| "js_div PosInf (Fin b) = (if b < 0 then NegInf else PosInf)"
| "js_div NegInf (Fin b) = (if b < 0 then PosInf else NegInf)"
| "js_div _ _ = NaN"

text \<open>The comparisons \<^verbatim>\<open><\<close> and \<^verbatim>\<open><=\<close>: false as soon as an operand is \<open>NaN\<close>.\<close>

fun js_lt :: "jsnum \<Rightarrow> jsnum \<Rightarrow> bool" where
  "js_lt (Fin a) (Fin b) = (a < b)"
| "js_lt NaN _ = False"
| "js_lt _ NaN = False"
| "js_lt _ NegInf = False"
| "js_lt NegInf _ = True"
| "js_lt PosInf _ = False"
| "js_lt _ PosInf = True"

fun js_le :: "jsnum \<Rightarrow> jsnum \<Rightarrow> bool" where
  "js_le (Fin a) (Fin b) = (a \<le> b)"
| "js_le NaN _ = False"
| "js_le _ NaN = False"
| "js_le NegInf _ = True"
| "js_le _ NegInf = False"
| "js_le _ PosInf = True"
| "js_le PosInf _ = False"

definition js_gt :: "jsnum \<Rightarrow> jsnum \<Rightarrow> bool" where
  "js_gt a b = js_lt b a"

definition js_ge :: "jsnum \<Rightarrow> jsnum \<Rightarrow> bool" where
  "js_ge a b = js_le b a"

text \<open>\<^verbatim>\<open>Math.min\<close>, \<^verbatim>\<open>Math.max\<close>, \<^verbatim>\<open>Math.abs\<close>, \<^verbatim>\<open>Math.ceil\<close>, \<^verbatim>\<open>Math.sqrt\<close>
  and \<^verbatim>\<open>Math.pow(x, 2)\<close>.\<close>

definition js_min :: "jsnum \<Rightarrow> jsnum \<Rightarrow> jsnum" where
  "js_min a b = (if a = NaN \<or> b = NaN then NaN else if js_le a b then a else b)"

definition js_max :: "jsnum \<Rightarrow> jsnum \<Rightarrow> jsnum" where
  "js_max a b = (if a = NaN \<or> b = NaN then NaN else if js_le a b then b else a)"

fun js_abs :: "jsnum \<Rightarrow> jsnum" where
  "js_abs NaN = NaN"
| "js_abs NegInf = PosInf"
| "js_abs (Fin a) = Fin \<bar>a\<bar>"
| "js_abs PosInf = PosInf"

fun js_ceil :: "jsnum \<Rightarrow> jsnum" where
  "js_ceil (Fin a) = Fin (of_int \<lceil>a\<rceil>)"
| "js_ceil v = v"

fun js_sqrt :: "jsnum \<Rightarrow> jsnum" where
  "js_sqrt (Fin a) = (if a < 0 then NaN else Fin (sqrt a))"
| "js_sqrt PosInf = PosInf"
| "js_sqrt _ = NaN"

definition js_pow2 :: "jsnum \<Rightarrow> jsnum" where
  "js_pow2 a = js_mul a a"

text \<open>A number used as a condition (\<^verbatim>\<open>if (K[key])\<close>, \<^verbatim>\<open>matrix[key] || 0\<close>) counts as
  true unless it is zero or \<open>NaN\<close>.\<close>

definition truthy :: "jsnum \<Rightarrow> bool" where
  "truthy v = (v \<noteq> NaN \<and> v \<noteq> Fin 0)"

text \<open>\<^verbatim>\<open>Math.min(...xs)\<close> and \<^verbatim>\<open>Math.max(...xs)\<close>: the neutral element on the empty list.\<close>

definition js_min_list :: "jsnum list \<Rightarrow> jsnum" where
  "js_min_list xs = fold (\<lambda>x m. js_min m x) xs PosInf"

definition js_max_list :: "jsnum list \<Rightarrow> jsnum" where
  "js_max_list xs = fold (\<lambda>x m. js_max m x) xs NegInf"

section \<open>Data model\<close>

text \<open>
  The interfaces of \<^verbatim>\<open>femCalculations.ts\<close> and \<^verbatim>\<open>types/thermal.ts\<close>. Node and element
  ids and the node indices of an element are natural numbers. Of a drawing element only
  the fields the engine reads are kept (type, points, material).
\<close>

datatype boundary_kind = Interior | Exterior | Adiabatic

record Point =
  x_pt :: jsnum
  y_pt :: jsnum

record MaterialProperties =
  name :: string
  thermalConductivity :: jsnum
  defaultThickness :: jsnum
  color :: string

datatype element_type = Line | Rectangle | Circle | Wall | Insulation | Dimension | Text

record DrawingElement =
  type_de :: element_type
  points :: "Point list"
  material_de :: "MaterialProperties option"

record MeshNode =
  id_node :: nat
  x_node :: jsnum
  y_node :: jsnum
  temperature :: jsnum
  fixed :: bool
  isBoundary :: bool
  boundaryType :: "boundary_kind option"

record MeshElement =
  id_elem :: nat
  nodes_elem :: "nat \<times> nat \<times> nat"
  material :: MaterialProperties

record Mesh =
  nodes :: "MeshNode list"
  elements :: "MeshElement list"

record FluxValue =
  x_flux :: jsnum
  y_flux :: jsnum
  magnitude :: jsnum

record ThermalSimulationResult = Mesh +
  minTemperature :: jsnum
  maxTemperature :: jsnum
  isotherms :: "jsnum list"
  psiValue :: jsnum
  fRsiValue :: jsnum
  fluxValues :: "FluxValue list"

text \<open>The only exception the engine can raise: reading a field of \<^verbatim>\<open>undefined\<close>
  (a node index outside the node list, a missing corner point).\<close>

datatype error = TypeError

fun fold_err :: "('a \<Rightarrow> 'b \<Rightarrow> error + 'b) \<Rightarrow> 'a list \<Rightarrow> 'b \<Rightarrow> error + 'b" where
  "fold_err f [] s = Inr s"
| "fold_err f (x # xs) s = (case f x s of Inl e \<Rightarrow> Inl e | Inr s' \<Rightarrow> fold_err f xs s')"

section \<open>Conduction solver\<close>

definition INTERIOR_HEAT_TRANSFER_COEFFICIENT :: jsnum where
  "INTERIOR_HEAT_TRANSFER_COEFFICIENT = Fin (77 / 10)"

definition EXTERIOR_HEAT_TRANSFER_COEFFICIENT :: jsnum where
  "EXTERIOR_HEAT_TRANSFER_COEFFICIENT = Fin 25"

text \<open>The sparse matrix is an object keyed by \<^verbatim>\<open>`${i}-${j}`\<close>; for natural numbers the
  key determines the pair.\<close>

type_synonym sparse = "nat \<times> nat \<rightharpoonup> jsnum"

definition addToSparseMatrix :: "sparse \<Rightarrow> nat \<Rightarrow> nat \<Rightarrow> jsnum \<Rightarrow> sparse" where
  "addToSparseMatrix matrix i j v =
     matrix((i, j) \<mapsto>
       js_add (case matrix (i, j) of None \<Rightarrow> Fin 0
               | Some w \<Rightarrow> if truthy w then w else Fin 0) v)"

definition deleteFromSparseMatrix :: "sparse \<Rightarrow> nat \<Rightarrow> nat \<Rightarrow> sparse" where
  "deleteFromSparseMatrix matrix i j = matrix((i, j) := None)"

text \<open>\<^verbatim>\<open>const [i, j, k] = element.nodes; const ni = nodes[i]; ...\<close>: the first field read
  of a node that is not there throws.\<close>

definition element_nodes :: "MeshNode list \<Rightarrow> MeshElement \<Rightarrow> error + (MeshNode \<times> MeshNode \<times> MeshNode)" where
  "element_nodes ns e =
     (case nodes_elem e of (i, j, k) \<Rightarrow>
        if i < length ns \<and> j < length ns \<and> k < length ns
        then Inr (ns ! i, ns ! j, ns ! k) else Inl TypeError)"

definition triangle_area :: "MeshNode \<Rightarrow> MeshNode \<Rightarrow> MeshNode \<Rightarrow> jsnum" where
  "triangle_area ni nj nk =
     js_mul (Fin (1 / 2))
       (js_abs (js_sub
          (js_mul (js_sub (x_node nj) (x_node ni)) (js_sub (y_node nk) (y_node ni)))
          (js_mul (js_sub (x_node nk) (x_node ni)) (js_sub (y_node nj) (y_node ni)))))"

definition assemble_element :: "MeshNode list \<Rightarrow> MeshElement \<Rightarrow> sparse \<Rightarrow> error + sparse" where
  "assemble_element ns e K =
     (case element_nodes ns e of
        Inl err \<Rightarrow> Inl err
      | Inr (ni, nj, nk) \<Rightarrow>
          (case nodes_elem e of (i, j, k) \<Rightarrow>
            let area = triangle_area ni nj nk;
                conductivity = thermalConductivity (material e);
                bi = js_sub (y_node nj) (y_node nk);
                bj = js_sub (y_node nk) (y_node ni);
                bk = js_sub (y_node ni) (y_node nj);
                ci = js_sub (x_node nk) (x_node nj);
                cj = js_sub (x_node ni) (x_node nk);
                ck = js_sub (x_node nj) (x_node ni);
                factor = js_div conductivity (js_mul (Fin 4) area);
                K1 = addToSparseMatrix K i i (js_mul factor (js_add (js_mul bi bi) (js_mul ci ci)));
                K2 = addToSparseMatrix K1 i j (js_mul factor (js_add (js_mul bi bj) (js_mul ci cj)));
                K3 = addToSparseMatrix K2 i k (js_mul factor (js_add (js_mul bi bk) (js_mul ci ck)));
                K4 = addToSparseMatrix K3 j i (js_mul factor (js_add (js_mul bj bi) (js_mul cj ci)));
                K5 = addToSparseMatrix K4 j j (js_mul factor (js_add (js_mul bj bj) (js_mul cj cj)));
                K6 = addToSparseMatrix K5 j k (js_mul factor (js_add (js_mul bj bk) (js_mul cj ck)));
                K7 = addToSparseMatrix K6 k i (js_mul factor (js_add (js_mul bk bi) (js_mul ck ci)));
                K8 = addToSparseMatrix K7 k j (js_mul factor (js_add (js_mul bk bj) (js_mul ck cj)));
                K9 = addToSparseMatrix K8 k k (js_mul factor (js_add (js_mul bk bk) (js_mul ck ck)))
            in Inr K9))"

text \<open>The boundary-condition loop, one node at a time. The two surface coefficients are
  parameters here; the solver passes the two constants.\<close>

definition dirichletClear :: "nat \<Rightarrow> nat \<Rightarrow> sparse \<Rightarrow> sparse" where
  "dirichletClear n i K =
     fold (\<lambda>j M. deleteFromSparseMatrix (deleteFromSparseMatrix M i j) j i) [0..<n] K"

definition boundaryCondition :: "jsnum \<Rightarrow> jsnum \<Rightarrow> MeshNode list \<Rightarrow> nat \<Rightarrow> sparse \<times> jsnum list \<Rightarrow> sparse \<times> jsnum list" where
  "boundaryCondition hi he ns i KF =
     (case KF of (K, F) \<Rightarrow>
        let node = ns ! i in
        if fixed node then
          (addToSparseMatrix (dirichletClear (length ns) i K) i i (Fin 1), F[i := temperature node])
        else if isBoundary node then
          (if boundaryType node = Some Interior then
             (addToSparseMatrix K i i hi, F[i := js_add (F ! i) (js_mul hi (Fin 20))])
           else if boundaryType node = Some Exterior then
             (addToSparseMatrix K i i he, F[i := js_add (F ! i) (js_mul he (Fin 0))])
           else (K, F))
        else (K, F))"

definition boundaryConditions_with :: "jsnum \<Rightarrow> jsnum \<Rightarrow> MeshNode list \<Rightarrow> sparse \<times> jsnum list \<Rightarrow> sparse \<times> jsnum list" where
  "boundaryConditions_with hi he ns KF = fold (boundaryCondition hi he ns) [0..<length ns] KF"

definition boundaryConditions :: "MeshNode list \<Rightarrow> sparse \<times> jsnum list \<Rightarrow> sparse \<times> jsnum list" where
  "boundaryConditions =
     boundaryConditions_with INTERIOR_HEAT_TRANSFER_COEFFICIENT EXTERIOR_HEAT_TRANSFER_COEFFICIENT"

text \<open>One Gauss-Seidel update of node \<open>i\<close>: the row sum over the other nodes, then the
  division by the diagonal entry. A missing entry reads as \<^verbatim>\<open>undefined\<close>, which is \<open>NaN\<close>
  as a divisor and false as a condition.\<close>

definition rowSum :: "nat \<Rightarrow> sparse \<Rightarrow> jsnum list \<Rightarrow> jsnum list \<Rightarrow> nat \<Rightarrow> jsnum" where
  "rowSum n K F T i =
     fold (\<lambda>j s. if i \<noteq> j then
                    (case K (i, j) of
                       Some v \<Rightarrow> if truthy v then js_sub s (js_mul v (T ! j)) else s
                     | None \<Rightarrow> s)
                  else s) [0..<n] (F ! i)"

definition diagonal :: "sparse \<Rightarrow> nat \<Rightarrow> jsnum" where
  "diagonal K i = (case K (i, i) of None \<Rightarrow> NaN | Some d \<Rightarrow> d)"

definition newTemperature :: "nat \<Rightarrow> sparse \<Rightarrow> jsnum list \<Rightarrow> jsnum list \<Rightarrow> nat \<Rightarrow> jsnum" where
  "newTemperature n K F T i = js_div (rowSum n K F T i) (diagonal K i)"

definition updateNode :: "MeshNode list \<Rightarrow> sparse \<Rightarrow> jsnum list \<Rightarrow> nat \<Rightarrow> jsnum list \<times> jsnum \<Rightarrow> jsnum list \<times> jsnum" where
  "updateNode ns K F i Te =
     (case Te of (T, err) \<Rightarrow>
        if \<not> fixed (ns ! i) then
          let newT = newTemperature (length ns) K F T i
          in (T[i := newT], js_max err (js_abs (js_sub newT (T ! i))))
        else (T, err))"

definition sweep :: "MeshNode list \<Rightarrow> sparse \<Rightarrow> jsnum list \<Rightarrow> jsnum list \<Rightarrow> jsnum list \<times> jsnum" where
  "sweep ns K F T = fold (updateNode ns K F) [0..<length ns] (T, Fin 0)"

text \<open>The \<^verbatim>\<open>while (iteration < maxIterations && error > tolerance)\<close> loop; the iteration cap is
  a natural number. The final loop state is (iteration, error, T).\<close>

function gaussSeidel :: "MeshNode list \<Rightarrow> sparse \<Rightarrow> jsnum list \<Rightarrow> nat \<Rightarrow> jsnum \<Rightarrow> nat \<Rightarrow> jsnum \<Rightarrow> jsnum list \<Rightarrow> nat \<times> jsnum \<times> jsnum list" where
  "gaussSeidel ns K F maxIterations tolerance iteration err T =
     (if iteration < maxIterations \<and> js_gt err tolerance then
        (case sweep ns K F T of (T', err') \<Rightarrow>
           gaussSeidel ns K F maxIterations tolerance (Suc iteration) err' T')
      else (iteration, err, T))"
  by pat_completeness auto
termination
  by (relation "measure (\<lambda>(ns, K, F, maxIterations, tolerance, iteration, err, T). maxIterations - iteration)") auto

text \<open>After the loop: the temperatures are written back into the nodes, in place.\<close>

definition writeTemperatures :: "MeshNode list \<Rightarrow> jsnum list \<Rightarrow> MeshNode list" where
  "writeTemperatures ns T = map (\<lambda>(node, t). node\<lparr>temperature := t\<rparr>) (zip ns T)"

definition isothermLevels :: "jsnum \<Rightarrow> jsnum \<Rightarrow> jsnum list" where
  "isothermLevels minT maxT =
     (let range = js_sub maxT minT
      in map (\<lambda>i. js_add minT (js_div (js_mul (Fin (of_nat (i + 1))) range) (Fin 10))) [0..<9])"

subsection \<open>Diagnostics\<close>

definition includes_node :: "nat \<times> nat \<times> nat \<Rightarrow> nat \<Rightarrow> bool" where
  "includes_node t v = (case t of (i, j, k) \<Rightarrow> i = v \<or> j = v \<or> k = v)"

definition localFlow :: "MeshNode list \<Rightarrow> MeshNode \<Rightarrow> MeshElement \<Rightarrow> jsnum \<Rightarrow> error + jsnum" where
  "localFlow ns node e acc =
     (case element_nodes ns e of
        Inl err \<Rightarrow> Inl err
      | Inr (ni, nj, nk) \<Rightarrow>
          let area = triangle_area ni nj nk;
              dT = js_abs (js_sub (temperature node)
                     (js_div (js_add (js_add (temperature ni) (temperature nj)) (temperature nk)) (Fin 3)));
              dx = js_sqrt area;
              conductivity = thermalConductivity (material e)
          in Inr (js_add acc (js_mul (js_mul conductivity (js_div dT dx)) (js_sqrt area))))"

definition estimateTotalHeatFlow :: "Mesh \<Rightarrow> error + jsnum" where
  "estimateTotalHeatFlow mesh =
     fold_err (\<lambda>node totalFlow.
        if isBoundary node \<and> boundaryType node = Some Interior then
          (case fold_err (localFlow (nodes mesh) node)
                  (filter (\<lambda>e. includes_node (nodes_elem e) (id_node node)) (elements mesh)) (Fin 0) of
             Inl err \<Rightarrow> Inl err
           | Inr flow \<Rightarrow> Inr (js_add totalFlow flow))
        else Inr totalFlow) (nodes mesh) (Fin 0)"

text \<open>Boundary nodes are grouped into horizontal walls: a node joins the first wall
  whose \<open>y\<close> is within 5 mm, or opens a new wall at the end of the list.\<close>

fun addToWall :: "MeshNode \<Rightarrow> (jsnum \<times> MeshNode list) list \<Rightarrow> (jsnum \<times> MeshNode list) list" where
  "addToWall node [] = [(y_node node, [node])]"
| "addToWall node ((wy, wns) # ws) =
     (if js_lt (js_abs (js_sub wy (y_node node))) (Fin 5) then (wy, wns @ [node]) # ws
      else (wy, wns) # addToWall node ws)"

definition horizontalWalls :: "MeshNode list \<Rightarrow> (jsnum \<times> MeshNode list) list" where
  "horizontalWalls ns = fold (\<lambda>node ws. if isBoundary node then addToWall node ws else ws) ns []"

text \<open>\<^verbatim>\<open>[...wall.nodes].sort((a, b) => a.x - b.x)\<close>: a stable sort by \<open>x\<close>. The sorted list
  is only filtered, summed and counted.\<close>

fun insertByX :: "MeshNode \<Rightarrow> MeshNode list \<Rightarrow> MeshNode list" where
  "insertByX a [] = [a]"
| "insertByX a (b # bs) =
     (if js_gt (js_sub (x_node a) (x_node b)) (Fin 0) then b # insertByX a bs else a # b # bs)"

definition sortByX :: "MeshNode list \<Rightarrow> MeshNode list" where
  "sortByX ns = foldr insertByX ns []"

definition elementCenterIn :: "MeshNode list \<Rightarrow> jsnum \<Rightarrow> jsnum \<Rightarrow> jsnum \<Rightarrow> jsnum \<Rightarrow> MeshElement \<Rightarrow> error + bool" where
  "elementCenterIn ns minX minY maxX maxY e =
     (case element_nodes ns e of
        Inl err \<Rightarrow> Inl err
      | Inr (ni, nj, nk) \<Rightarrow>
          let centerX = js_div (js_add (js_add (x_node ni) (x_node nj)) (x_node nk)) (Fin 3);
              centerY = js_div (js_add (js_add (y_node ni) (y_node nj)) (y_node nk)) (Fin 3)
          in Inr (js_ge centerX minX \<and> js_le centerX maxX \<and> js_ge centerY minY \<and> js_le centerY maxY))"

definition findElementsInRegion :: "Mesh \<Rightarrow> jsnum \<Rightarrow> jsnum \<Rightarrow> jsnum \<Rightarrow> jsnum \<Rightarrow> error + MeshElement list" where
  "findElementsInRegion mesh minX minY maxX maxY =
     fold_err (\<lambda>e acc. case elementCenterIn (nodes mesh) minX minY maxX maxY e of
                          Inl err \<Rightarrow> Inl err
                        | Inr b \<Rightarrow> Inr (if b then acc @ [e] else acc)) (elements mesh) []"

text \<open>\<^verbatim>\<open>materials.filter((m, index, self) => index === self.findIndex(...))\<close>: the first
  material of each name.\<close>

fun uniqueMaterials :: "string list \<Rightarrow> MaterialProperties list \<Rightarrow> MaterialProperties list" where
  "uniqueMaterials seen [] = []"
| "uniqueMaterials seen (m # ms) =
     (if name m \<in> set seen then uniqueMaterials seen ms
      else m # uniqueMaterials (name m # seen) ms)"

definition sumX :: "MeshNode list \<Rightarrow> jsnum" where
  "sumX ns = fold (\<lambda>node s. js_add s (x_node node)) ns (Fin 0)"

definition wallFlow :: "Mesh \<Rightarrow> jsnum \<Rightarrow> jsnum \<Rightarrow> jsnum \<times> MeshNode list \<Rightarrow> jsnum \<Rightarrow> error + jsnum" where
  "wallFlow mesh minTemp maxTemp wall oneDFlow =
     (case wall of (wy, wns) \<Rightarrow>
        let sortedNodes = sortByX wns;
            exteriorNodes = filter (\<lambda>node. boundaryType node = Some Exterior) sortedNodes;
            interiorNodes = filter (\<lambda>node. boundaryType node = Some Interior) sortedNodes
        in if 0 < length exteriorNodes \<and> 0 < length interiorNodes then
             let avgExteriorX = js_div (sumX exteriorNodes) (Fin (of_nat (length exteriorNodes)));
                 avgInteriorX = js_div (sumX interiorNodes) (Fin (of_nat (length interiorNodes)));
                 wallThickness = js_abs (js_sub avgInteriorX avgExteriorX)
             in (case findElementsInRegion mesh (js_min avgExteriorX avgInteriorX) (js_sub wy (Fin 5))
                        (js_max avgExteriorX avgInteriorX) (js_add wy (Fin 5)) of
                   Inl err \<Rightarrow> Inl err
                 | Inr elementsInWall \<Rightarrow>
                     let resistance = fold (\<lambda>m r.
                           let materialElements = filter (\<lambda>e. name (material e) = name m) elementsInWall;
                               materialThickness = js_mul wallThickness
                                 (js_div (Fin (of_nat (length materialElements)))
                                         (Fin (of_nat (length elementsInWall))))
                           in js_add r (js_div materialThickness (thermalConductivity m)))
                           (uniqueMaterials [] (map material elementsInWall)) (Fin 0);
                         equivalentR = js_add resistance
                           (js_add (js_div (Fin 1) INTERIOR_HEAT_TRANSFER_COEFFICIENT)
                                   (js_div (Fin 1) EXTERIOR_HEAT_TRANSFER_COEFFICIENT));
                         uValue = js_div (Fin 1) equivalentR;
                         wallLength = js_mul (Fin (of_nat (length sortedNodes))) (Fin 5);
                         tempDiff = js_sub maxTemp minTemp
                     in Inr (js_add oneDFlow (js_mul (js_mul uValue wallLength) tempDiff)))
           else Inr oneDFlow)"

definition estimateOneDimensionalHeatFlow :: "Mesh \<Rightarrow> jsnum \<Rightarrow> jsnum \<Rightarrow> error + jsnum" where
  "estimateOneDimensionalHeatFlow mesh minTemp maxTemp =
     fold_err (wallFlow mesh minTemp maxTemp) (horizontalWalls (nodes mesh)) (Fin 0)"

definition calculatePsiValue :: "Mesh \<Rightarrow> jsnum \<Rightarrow> jsnum \<Rightarrow> error + jsnum" where
  "calculatePsiValue mesh minTemp maxTemp =
     (case estimateTotalHeatFlow mesh of
        Inl err \<Rightarrow> Inl err
      | Inr totalHeatFlow \<Rightarrow>
          (case estimateOneDimensionalHeatFlow mesh minTemp maxTemp of
             Inl err \<Rightarrow> Inl err
           | Inr oneDimensionalHeatFlow \<Rightarrow> Inr (js_sub totalHeatFlow oneDimensionalHeatFlow)))"

definition minSurfaceTemp :: "MeshNode list \<Rightarrow> jsnum \<Rightarrow> jsnum" where
  "minSurfaceTemp ns maxTemp =
     fold (\<lambda>node m. if isBoundary node \<and> boundaryType node = Some Interior
                     then js_min m (temperature node) else m) ns maxTemp"

definition calculateFRsiValue :: "Mesh \<Rightarrow> jsnum \<Rightarrow> jsnum \<Rightarrow> jsnum" where
  "calculateFRsiValue mesh minTemp maxTemp =
     js_div (js_sub (minSurfaceTemp (nodes mesh) maxTemp) minTemp) (js_sub maxTemp minTemp)"

definition elementFlux :: "MeshNode list \<Rightarrow> MeshElement \<Rightarrow> FluxValue list \<Rightarrow> error + FluxValue list" where
  "elementFlux ns e acc =
     (case element_nodes ns e of
        Inl err \<Rightarrow> Inl err
      | Inr (ni, nj, nk) \<Rightarrow>
          let area = triangle_area ni nj nk;
              bi = js_sub (y_node nj) (y_node nk);
              bj = js_sub (y_node nk) (y_node ni);
              bk = js_sub (y_node ni) (y_node nj);
              ci = js_sub (x_node nk) (x_node nj);
              cj = js_sub (x_node ni) (x_node nk);
              ck = js_sub (x_node nj) (x_node ni);
              gradTx = js_div (js_add (js_add (js_mul bi (temperature ni)) (js_mul bj (temperature nj)))
                                 (js_mul bk (temperature nk))) (js_mul (Fin 2) area);
              gradTy = js_div (js_add (js_add (js_mul ci (temperature ni)) (js_mul cj (temperature nj)))
                                 (js_mul ck (temperature nk))) (js_mul (Fin 2) area);
              conductivity = thermalConductivity (material e);
              qx = js_mul (js_neg conductivity) gradTx;
              qy = js_mul (js_neg conductivity) gradTy;
              mag = js_sqrt (js_add (js_mul qx qx) (js_mul qy qy));
              centerX = js_div (js_add (js_add (x_node ni) (x_node nj)) (x_node nk)) (Fin 3);
              centerY = js_div (js_add (js_add (y_node ni) (y_node nj)) (y_node nk)) (Fin 3)
          in Inr (acc @ [\<lparr>x_flux = centerX, y_flux = centerY, magnitude = mag\<rparr>]))"

definition calculateHeatFlux :: "Mesh \<Rightarrow> error + FluxValue list" where
  "calculateHeatFlux mesh = fold_err (elementFlux (nodes mesh)) (elements mesh) []"

subsection \<open>The solver\<close>

text \<open>The linear system after assembly and boundary conditions.\<close>

definition assembleSystem :: "Mesh \<Rightarrow> error + sparse \<times> jsnum list" where
  "assembleSystem mesh =
     (case fold_err (assemble_element (nodes mesh)) (elements mesh) Map.empty of
        Inl err \<Rightarrow> Inl err
      | Inr K \<Rightarrow> Inr (boundaryConditions (nodes mesh) (K, replicate (length (nodes mesh)) (Fin 0))))"

text \<open>Everything after the loop, from the final temperature vector.\<close>

definition postProcess :: "Mesh \<Rightarrow> jsnum list \<Rightarrow> error + ThermalSimulationResult" where
  "postProcess mesh T =
     (let solved = mesh\<lparr>nodes := writeTemperatures (nodes mesh) T\<rparr>;
          minT = js_min_list T;
          maxT = js_max_list T
      in case calculatePsiValue solved minT maxT of
           Inl err \<Rightarrow> Inl err
         | Inr psi \<Rightarrow>
             (case calculateHeatFlux solved of
                Inl err \<Rightarrow> Inl err
              | Inr flux \<Rightarrow>
                  Inr \<lparr>nodes = nodes solved, elements = elements solved,
                       minTemperature = minT, maxTemperature = maxT,
                       isotherms = isothermLevels minT maxT,
                       psiValue = psi,
                       fRsiValue = calculateFRsiValue solved minT maxT,
                       fluxValues = flux\<rparr>))"

text \<open>The state in which the iteration loop ends: (iteration, error, T).\<close>

definition solverLoop :: "Mesh \<Rightarrow> nat \<Rightarrow> jsnum \<Rightarrow> error + nat \<times> jsnum \<times> jsnum list" where
  "solverLoop mesh maxIterations tolerance =
     (case assembleSystem mesh of
        Inl err \<Rightarrow> Inl err
      | Inr (K, F) \<Rightarrow>
          Inr (gaussSeidel (nodes mesh) K F maxIterations tolerance 0
                 (js_add tolerance (Fin 1)) (map temperature (nodes mesh))))"

definition solveHeatTransfer :: "Mesh \<Rightarrow> nat \<Rightarrow> jsnum \<Rightarrow> error + ThermalSimulationResult" where
  "solveHeatTransfer mesh maxIterations tolerance =
     (case solverLoop mesh maxIterations tolerance of
        Inl err \<Rightarrow> Inl err
      | Inr (iteration, err, T) \<Rightarrow> postProcess mesh T)"

section \<open>Mesh generator\<close>

text \<open>
  A counting loop \<^verbatim>\<open>for (let i = 0; i < b; i++)\<close> over a number \<open>b\<close> runs once for every
  natural number below \<open>b\<close>: not at all when \<open>b\<close> is \<open>NaN\<close> or \<open>-Infinity\<close>, and without end
  when \<open>b\<close> is \<open>+Infinity\<close> (\<open>None\<close>). \<open>count_le\<close> is the same for \<^verbatim>\<open>i <= b\<close>.
\<close>

definition count_lt :: "jsnum \<Rightarrow> nat option" where
  "count_lt b = (case b of Fin r \<Rightarrow> Some (nat \<lceil>r\<rceil>) | PosInf \<Rightarrow> None | _ \<Rightarrow> Some 0)"

definition count_le :: "jsnum \<Rightarrow> nat option" where
  "count_le b = (case b of Fin r \<Rightarrow> Some (if r < 0 then 0 else nat \<lfloor>r\<rfloor> + 1)
                 | PosInf \<Rightarrow> None | _ \<Rightarrow> Some 0)"

text \<open>The bounding box of all points: (minX, minY, maxX, maxY), before the margin.\<close>

definition boundsOf :: "DrawingElement list \<Rightarrow> jsnum \<times> jsnum \<times> jsnum \<times> jsnum" where
  "boundsOf drawingElements =
     fold (\<lambda>element b.
        fold (\<lambda>point (minX, minY, maxX, maxY).
                (js_min minX (x_pt point), js_min minY (y_pt point),
                 js_max maxX (x_pt point), js_max maxY (y_pt point))) (points element) b)
       drawingElements (PosInf, PosInf, NegInf, NegInf)"

text \<open>The domain after the margin, with the grid dimensions \<open>nx\<close> and \<open>ny\<close>.\<close>

record Domain =
  minX :: jsnum
  minY :: jsnum
  maxX :: jsnum
  maxY :: jsnum
  nx :: jsnum
  ny :: jsnum

definition domainOf :: "DrawingElement list \<Rightarrow> jsnum \<Rightarrow> Domain" where
  "domainOf drawingElements meshSize =
     (case boundsOf drawingElements of (minX0, minY0, maxX0, maxY0) \<Rightarrow>
        let margin = js_mul meshSize (Fin 5);
            minX1 = js_sub minX0 margin;
            minY1 = js_sub minY0 margin;
            maxX1 = js_add maxX0 margin;
            maxY1 = js_add maxY0 margin;
            width = js_sub maxX1 minX1;
            height = js_sub maxY1 minY1
        in \<lparr>minX = minX1, minY = minY1, maxX = maxX1, maxY = maxY1,
            nx = js_add (js_ceil (js_div width meshSize)) (Fin 1),
            ny = js_add (js_ceil (js_div height meshSize)) (Fin 1)\<rparr>)"

definition gridNode :: "Domain \<Rightarrow> jsnum \<Rightarrow> jsnum \<Rightarrow> nat \<Rightarrow> nat \<Rightarrow> nat \<Rightarrow> MeshNode" where
  "gridNode d interiorTemp exteriorTemp nodeId i j =
     (let width = js_sub (maxX d) (minX d);
          height = js_sub (maxY d) (minY d);
          x = js_add (minX d) (js_mul (Fin (of_nat i)) (js_div width (js_sub (nx d) (Fin 1))));
          y = js_add (minY d) (js_mul (Fin (of_nat j)) (js_div height (js_sub (ny d) (Fin 1))));
          isLeftBoundary = js_lt (js_abs (js_sub x (minX d))) (Fin (1 / 1000));
          isRightBoundary = js_lt (js_abs (js_sub x (maxX d))) (Fin (1 / 1000));
          isBottomBoundary = js_lt (js_abs (js_sub y (minY d))) (Fin (1 / 1000));
          isTopBoundary = js_lt (js_abs (js_sub y (maxY d))) (Fin (1 / 1000));
          isBoundaryNode = (isLeftBoundary \<or> isRightBoundary \<or> isBottomBoundary \<or> isTopBoundary)
      in if isLeftBoundary then
           \<lparr>id_node = nodeId, x_node = x, y_node = y, temperature = exteriorTemp,
            fixed = True, isBoundary = isBoundaryNode, boundaryType = Some Exterior\<rparr>
         else if isRightBoundary then
           \<lparr>id_node = nodeId, x_node = x, y_node = y, temperature = interiorTemp,
            fixed = True, isBoundary = isBoundaryNode, boundaryType = Some Interior\<rparr>
         else if isTopBoundary \<or> isBottomBoundary then
           \<lparr>id_node = nodeId, x_node = x, y_node = y, temperature = Fin 0,
            fixed = False, isBoundary = isBoundaryNode, boundaryType = Some Adiabatic\<rparr>
         else
           \<lparr>id_node = nodeId, x_node = x, y_node = y, temperature = Fin 0,
            fixed = False, isBoundary = isBoundaryNode, boundaryType = None\<rparr>)"

text \<open>The grid of \<open>rows\<close> rows of \<open>cols\<close> nodes, row by row; \<open>nodeId\<close> counts the nodes pushed.\<close>

definition gridNodes :: "Domain \<Rightarrow> jsnum \<Rightarrow> jsnum \<Rightarrow> nat \<Rightarrow> nat \<Rightarrow> MeshNode list" where
  "gridNodes d interiorTemp exteriorTemp cols rows =
     concat (map (\<lambda>j. map (\<lambda>i. gridNode d interiorTemp exteriorTemp (j * cols + i) i j) [0..<cols])
                 [0..<rows])"

subsection \<open>Junctions\<close>

definition distance :: "jsnum \<Rightarrow> jsnum \<Rightarrow> jsnum \<Rightarrow> jsnum \<Rightarrow> jsnum" where
  "distance x1 y1 x2 y2 = js_sqrt (js_add (js_pow2 (js_sub x1 x2)) (js_pow2 (js_sub y1 y2)))"

fun elementPairs :: "'a list \<Rightarrow> ('a \<times> 'a) list" where
  "elementPairs [] = []"
| "elementPairs (e # es) = map (Pair e) es @ elementPairs es"

definition junctionStep :: "Point \<times> Point \<Rightarrow> Point list \<Rightarrow> Point list" where
  "junctionStep pp junctions =
     (case pp of (point1, point2) \<Rightarrow>
        if js_lt (distance (x_pt point1) (y_pt point1) (x_pt point2) (y_pt point2)) (Fin (1 / 2)) then
          (if \<not> list_ex (\<lambda>junction.
                  js_lt (distance (x_pt junction) (y_pt junction) (x_pt point1) (y_pt point1)) (Fin (1 / 2)))
                junctions
           then junctions @ [\<lparr>x_pt = x_pt point1, y_pt = y_pt point1\<rparr>]
           else junctions)
        else junctions)"

definition findJunctions :: "DrawingElement list \<Rightarrow> Point list" where
  "findJunctions drawingElements =
     fold junctionStep
       (concat (map (\<lambda>(element1, element2).
                  concat (map (\<lambda>point1. map (Pair point1) (points element2)) (points element1)))
               (elementPairs drawingElements))) []"

subsection \<open>Adaptive refinement\<close>

definition refineCandidate :: "Domain \<Rightarrow> jsnum \<Rightarrow> jsnum \<Rightarrow> jsnum \<Rightarrow> Point \<Rightarrow> nat \<times> nat \<Rightarrow> MeshNode list \<Rightarrow> MeshNode list" where
  "refineCandidate d refinementRadius refinementSize halfSize junction ij ns =
     (case ij of (i, j) \<Rightarrow>
        let x = js_add (js_sub (x_pt junction) refinementRadius) (js_mul (Fin (of_nat i)) refinementSize);
            y = js_add (js_sub (y_pt junction) refinementRadius) (js_mul (Fin (of_nat j)) refinementSize)
        in if js_ge x (minX d) \<and> js_le x (maxX d) \<and> js_ge y (minY d) \<and> js_le y (maxY d) then
             (if \<not> list_ex (\<lambda>node. js_lt (distance (x_node node) (y_node node) x y) halfSize) ns
              then ns @ [\<lparr>id_node = length ns, x_node = x, y_node = y, temperature = Fin 0,
                          fixed = False, isBoundary = False, boundaryType = None\<rparr>]
              else ns)
           else ns)"

definition refineJunction :: "Domain \<Rightarrow> jsnum \<Rightarrow> jsnum \<Rightarrow> Point \<Rightarrow> MeshNode list \<Rightarrow> MeshNode list option" where
  "refineJunction d meshSize adaptiveFactor junction ns =
     (let refinementRadius = js_mul meshSize (Fin 5);
          refinementSize = js_mul meshSize adaptiveFactor;
          refinementN = js_ceil (js_div (js_mul (Fin 2) refinementRadius) refinementSize)
      in case count_le refinementN of
           None \<Rightarrow> None
         | Some c \<Rightarrow>
             Some (fold (refineCandidate d refinementRadius refinementSize
                           (js_div refinementSize (Fin 2)) junction)
                     (concat (map (\<lambda>j. map (\<lambda>i. (i, j)) [0..<c]) [0..<c])) ns))"

fun refineAll :: "Domain \<Rightarrow> jsnum \<Rightarrow> jsnum \<Rightarrow> Point list \<Rightarrow> MeshNode list \<Rightarrow> MeshNode list option" where
  "refineAll d meshSize adaptiveFactor [] ns = Some ns"
| "refineAll d meshSize adaptiveFactor (junction # junctions) ns =
     (case refineJunction d meshSize adaptiveFactor junction ns of
        None \<Rightarrow> None
      | Some ns' \<Rightarrow> refineAll d meshSize adaptiveFactor junctions ns')"

subsection \<open>Triangulation\<close>

text \<open>\<^verbatim>\<open>const [p1, p2] = element.points\<close> of a rectangle with a material: reading \<^verbatim>\<open>p1.x\<close> or
  \<^verbatim>\<open>p2.x\<close> throws when the element has fewer than two points.\<close>

fun findMaterialAtPoint :: "DrawingElement list \<Rightarrow> jsnum \<Rightarrow> jsnum \<Rightarrow> error + MaterialProperties option" where
  "findMaterialAtPoint [] px py = Inr None"
| "findMaterialAtPoint (element # rest) px py =
     (case (type_de element, material_de element) of
        (Rectangle, Some m) \<Rightarrow>
          (case points element of
             p1 # p2 # _ \<Rightarrow>
               if js_ge px (js_min (x_pt p1) (x_pt p2)) \<and> js_le px (js_max (x_pt p1) (x_pt p2)) \<and>
                  js_ge py (js_min (y_pt p1) (y_pt p2)) \<and> js_le py (js_max (y_pt p1) (y_pt p2))
               then Inr (Some m)
               else findMaterialAtPoint rest px py
           | _ \<Rightarrow> Inl TypeError)
      | _ \<Rightarrow> findMaterialAtPoint rest px py)"

definition Air :: MaterialProperties where
  "Air = \<lparr>name = ''Air'', thermalConductivity = Fin (25 / 1000), defaultThickness = Fin 0,
          color = ''#FFFFFF''\<rparr>"

text \<open>One grid cell: its two triangles. \<open>cols\<close> is the number of nodes in a grid row
  (\<open>nx\<close> as an index factor), \<open>elementId\<close> the number of elements pushed so far.\<close>

definition cellElements :: "DrawingElement list \<Rightarrow> MeshNode list \<Rightarrow> nat \<Rightarrow> nat \<times> nat \<Rightarrow> MeshElement list \<Rightarrow> error + MeshElement list" where
  "cellElements drawingElements ns cols ij es =
     (case ij of (i, j) \<Rightarrow>
        let bottomLeft = j * cols + i;
            bottomRight = j * cols + i + 1;
            topLeft = (j + 1) * cols + i;
            topRight = (j + 1) * cols + i + 1
        in if bottomLeft < length ns \<and> topRight < length ns then
             let centerX = js_div (js_add (x_node (ns ! bottomLeft)) (x_node (ns ! topRight))) (Fin 2);
                 centerY = js_div (js_add (y_node (ns ! bottomLeft)) (y_node (ns ! topRight))) (Fin 2)
             in (case findMaterialAtPoint drawingElements centerX centerY of
                   Inl err \<Rightarrow> Inl err
                 | Inr found \<Rightarrow>
                     let m = (case found of Some m' \<Rightarrow> m' | None \<Rightarrow> Air)
                     in Inr (es @ [\<lparr>id_elem = length es, nodes_elem = (bottomLeft, bottomRight, topRight),
                                     material = m\<rparr>,
                                   \<lparr>id_elem = length es + 1, nodes_elem = (bottomLeft, topRight, topLeft),
                                     material = m\<rparr>]))
           else Inl TypeError)"

definition triangulate :: "DrawingElement list \<Rightarrow> MeshNode list \<Rightarrow> nat \<Rightarrow> nat \<Rightarrow> nat \<Rightarrow> error + MeshElement list" where
  "triangulate drawingElements ns cols cellCols cellRows =
     fold_err (cellElements drawingElements ns cols)
       (concat (map (\<lambda>j. map (\<lambda>i. (i, j)) [0..<cellCols]) [0..<cellRows])) []"

subsection \<open>The generator\<close>

text \<open>Two nested counting loops, the outer one up to \<open>outer\<close> and the inner one up to
  \<open>inner\<close>: the numbers of inner and outer iterations, or \<open>None\<close> when a loop does not end
  (the inner loop is only entered if the outer one runs at all).\<close>

definition loopCounts :: "jsnum \<Rightarrow> jsnum \<Rightarrow> (nat \<times> nat) option" where
  "loopCounts outer inner =
     (case count_lt outer of
        None \<Rightarrow> None
      | Some rows \<Rightarrow>
          if rows = 0 then Some (0, 0)
          else (case count_lt inner of None \<Rightarrow> None | Some cols \<Rightarrow> Some (cols, rows)))"

text \<open>\<open>generateMesh\<close> returns \<open>None\<close> when one of its loops does not end, \<open>Some (Inl e)\<close> when
  it throws and \<open>Some (Inr mesh)\<close> when it returns \<open>mesh\<close>. In the element loop the index
  factor \<open>nx\<close> is the number \<open>cols\<close> of nodes of a grid row.\<close>

definition generateMesh :: "DrawingElement list \<Rightarrow> jsnum \<Rightarrow> jsnum \<Rightarrow> jsnum \<Rightarrow> jsnum \<Rightarrow> (error + Mesh) option" where
  "generateMesh drawingElements meshSize adaptiveFactor interiorTemp exteriorTemp =
     (let d = domainOf drawingElements meshSize in
      case loopCounts (ny d) (nx d) of
        None \<Rightarrow> None
      | Some (cols, rows) \<Rightarrow>
          (case refineAll d meshSize adaptiveFactor (findJunctions drawingElements)
                  (gridNodes d interiorTemp exteriorTemp cols rows) of
             None \<Rightarrow> None
           | Some ns \<Rightarrow>
               (case loopCounts (js_sub (ny d) (Fin 1)) (js_sub (nx d) (Fin 1)) of
                  None \<Rightarrow> None
                | Some (cellCols, cellRows) \<Rightarrow>
                    (case triangulate drawingElements ns cols cellCols cellRows of
                       Inl err \<Rightarrow> Some (Inl err)
                     | Inr es \<Rightarrow> Some (Inr \<lparr>nodes = ns, elements = es\<rparr>)))))"

section \<open>Well-formed meshes and example inputs\<close>

text \<open>An element is in range when its three node indices are indices of the node list.\<close>

definition elementInRange :: "MeshNode list \<Rightarrow> MeshElement \<Rightarrow> bool" where
  "elementInRange ns e =
     (case nodes_elem e of (i, j, k) \<Rightarrow> i < length ns \<and> j < length ns \<and> k < length ns)"

definition elementsInRange :: "Mesh \<Rightarrow> bool" where
  "elementsInRange mesh = list_all (elementInRange (nodes mesh)) (elements mesh)"

text \<open>A mesh of one triangle: an exterior and an interior Dirichlet node and one free node
  that starts at 5 degrees.\<close>

definition triangleMesh :: Mesh where
  "triangleMesh =
     \<lparr>nodes = [\<lparr>id_node = 0, x_node = Fin 0, y_node = Fin 0, temperature = Fin 0,
                 fixed = True, isBoundary = True, boundaryType = Some Exterior\<rparr>,
               \<lparr>id_node = 1, x_node = Fin 1, y_node = Fin 0, temperature = Fin 20,
                 fixed = True, isBoundary = True, boundaryType = Some Interior\<rparr>,
               \<lparr>id_node = 2, x_node = Fin 0, y_node = Fin 1, temperature = Fin 5,
                 fixed = False, isBoundary = False, boundaryType = None\<rparr>],
      elements = [\<lparr>id_elem = 0, nodes_elem = (0, 1, 2), material = Air\<rparr>]\<rparr>"

text \<open>The minimum and the maximum of a list of numbers, and the interior-boundary nodes
  of a node list, as the diagnostics are specified.\<close>

definition minimumOf :: "jsnum \<Rightarrow> jsnum list \<Rightarrow> bool" where
  "minimumOf t xs = (t \<in> set xs \<and> list_all (js_le t) xs)"

definition maximumOf :: "jsnum \<Rightarrow> jsnum list \<Rightarrow> bool" where
  "maximumOf t xs = (t \<in> set xs \<and> list_all (\<lambda>x. js_le x t) xs)"

definition interiorBoundaryNodes :: "MeshNode list \<Rightarrow> MeshNode list" where
  "interiorBoundaryNodes ns = filter (\<lambda>node. isBoundary node \<and> boundaryType node = Some Interior) ns"




text \<open>The load vector after assembly and boundary conditions.\<close>

definition loadVector :: "Mesh \<Rightarrow> error + jsnum list" where
  "loadVector mesh = (case assembleSystem mesh of Inl err \<Rightarrow> Inl err | Inr (K, F) \<Rightarrow> Inr F)"

text \<open>Four boundary nodes and no element: an interior Dirichlet node held at 22 degrees, a
  free interior node, an exterior Dirichlet node held at -5 degrees and a free exterior node.\<close>

definition robinMesh :: Mesh where
  "robinMesh =
     \<lparr>nodes = [\<lparr>id_node = 0, x_node = Fin 1, y_node = Fin 0, temperature = Fin 22,
                 fixed = True, isBoundary = True, boundaryType = Some Interior\<rparr>,
               \<lparr>id_node = 1, x_node = Fin 1, y_node = Fin 1, temperature = Fin 0,
                 fixed = False, isBoundary = True, boundaryType = Some Interior\<rparr>,
               \<lparr>id_node = 2, x_node = Fin 0, y_node = Fin 0, temperature = Fin (- 5),
                 fixed = True, isBoundary = True, boundaryType = Some Exterior\<rparr>,
               \<lparr>id_node = 3, x_node = Fin 0, y_node = Fin 1, temperature = Fin 0,
                 fixed = False, isBoundary = True, boundaryType = Some Exterior\<rparr>],
      elements = []\<rparr>"

text \<open>What the boundary-condition step does to the load entry of its node.\<close>

definition loadEntry :: "jsnum \<Rightarrow> jsnum \<Rightarrow> MeshNode \<Rightarrow> jsnum \<Rightarrow> jsnum" where
  "loadEntry hi he node v =
     (if fixed node then temperature node
      else if isBoundary node \<and> boundaryType node = Some Interior then js_add v (js_mul hi (Fin 20))
      else if isBoundary node \<and> boundaryType node = Some Exterior then js_add v (js_mul he (Fin 0))
      else v)"

section \<open>Generated meshes: vocabulary of the properties\<close>

text \<open>A free node is neither fixed nor on the boundary, as the nodes of the adaptive
  refinement are; the empty mesh; a Robin node is a non-fixed interior or exterior boundary
  node; an element is below \<open>n\<close> when its three node indices are less than \<open>n\<close>.\<close>

definition freeNode :: "MeshNode \<Rightarrow> bool" where
  "freeNode node = (\<not> fixed node \<and> \<not> isBoundary node \<and> boundaryType node = None)"

definition emptyMesh :: Mesh where
  "emptyMesh = \<lparr>nodes = [], elements = []\<rparr>"

definition robinNodes :: "MeshNode list \<Rightarrow> MeshNode list" where
  "robinNodes ns =
     filter (\<lambda>node. \<not> fixed node \<and> isBoundary node \<and>
                     (boundaryType node = Some Interior \<or> boundaryType node = Some Exterior)) ns"

definition elementBelow :: "nat \<Rightarrow> MeshElement \<Rightarrow> bool" where
  "elementBelow n e = (case nodes_elem e of (i, j, k) \<Rightarrow> i < n \<and> j < n \<and> k < n)"


text \<open>
  The same quantities in exact arithmetic, used to show that the generator returns on
  valid regions when nothing is rounded: \<open>domainWidth\<close> and \<open>domainHeight\<close> are the width and
  height of the expanded bounding box, \<open>columns\<close> and \<open>rowsOf\<close> the two grid dimensions.
\<close>

definition finitePoint :: "Point \<Rightarrow> bool" where
  "finitePoint p = (is_Fin (x_pt p) \<and> is_Fin (y_pt p))"

definition validRegion :: "DrawingElement \<Rightarrow> bool" where
  "validRegion e =
     (type_de e = Rectangle \<and> material_de e \<noteq> None \<and> length (points e) = 2 \<and>
      list_all finitePoint (points e))"

definition validRegions :: "DrawingElement list \<Rightarrow> bool" where
  "validRegions des = (des \<noteq> [] \<and> list_all validRegion des)"

definition allPoints :: "DrawingElement list \<Rightarrow> Point list" where
  "allPoints des = concat (map points des)"

definition xs_of :: "DrawingElement list \<Rightarrow> real list" where
  "xs_of des = map (\<lambda>p. the_real (x_pt p)) (allPoints des)"

definition ys_of :: "DrawingElement list \<Rightarrow> real list" where
  "ys_of des = map (\<lambda>p. the_real (y_pt p)) (allPoints des)"

definition domainWidth :: "DrawingElement list \<Rightarrow> real \<Rightarrow> real" where
  "domainWidth des meshSize =
     (Max (set (xs_of des)) + 5 * meshSize) - (Min (set (xs_of des)) - 5 * meshSize)"

definition domainHeight :: "DrawingElement list \<Rightarrow> real \<Rightarrow> real" where
  "domainHeight des meshSize =
     (Max (set (ys_of des)) + 5 * meshSize) - (Min (set (ys_of des)) - 5 * meshSize)"

definition columns :: "DrawingElement list \<Rightarrow> real \<Rightarrow> nat" where
  "columns des meshSize = nat (\<lceil>domainWidth des meshSize / meshSize\<rceil> + 1)"

definition rowsOf :: "DrawingElement list \<Rightarrow> real \<Rightarrow> nat" where
  "rowsOf des meshSize = nat (\<lceil>domainHeight des meshSize / meshSize\<rceil> + 1)"

definition boundsStep :: "Point \<Rightarrow> jsnum \<times> jsnum \<times> jsnum \<times> jsnum \<Rightarrow> jsnum \<times> jsnum \<times> jsnum \<times> jsnum" where
  "boundsStep point b = (case b of (x0, y0, x1, y1) \<Rightarrow>
                (js_min x0 (x_pt point), js_min y0 (y_pt point),
                 js_max x1 (x_pt point), js_max y1 (y_pt point)))"

definition concrete :: MaterialProperties where
  "concrete = \<lparr>name = ''Concrete'', thermalConductivity = Fin 2, defaultThickness = Fin 200,
               color = ''#808080''\<rparr>"

text \<open>Two rectangular regions that meet in the corner (10, 10).\<close>

definition exampleRegions :: "DrawingElement list" where
  "exampleRegions =
     [\<lparr>type_de = Rectangle, points = [\<lparr>x_pt = Fin 0, y_pt = Fin 0\<rparr>, \<lparr>x_pt = Fin 10, y_pt = Fin 10\<rparr>],
       material_de = Some concrete\<rparr>,
      \<lparr>type_de = Rectangle, points = [\<lparr>x_pt = Fin 10, y_pt = Fin 10\<rparr>, \<lparr>x_pt = Fin 20, y_pt = Fin 25\<rparr>],
       material_de = Some concrete\<rparr>]"

text \<open>What the solver returns on the empty mesh.\<close>

definition emptyResult :: ThermalSimulationResult where
  "emptyResult =
     \<lparr>nodes = [], elements = [], minTemperature = PosInf, maxTemperature = NegInf,
      isotherms = [NaN, NaN, NaN, NaN, NaN, NaN, NaN, NaN, NaN],
      psiValue = Fin 0, fRsiValue = NaN, fluxValues = []\<rparr>"

section \<open>The solver returns a result exactly for meshes in range\<close>

declare gaussSeidel.simps [simp del]

lemma fold_err_total:
  "(\<And>x s. x \<in> set xs \<Longrightarrow> \<exists>s'. f x s = Inr s') \<Longrightarrow> \<exists>s'. fold_err f xs s = Inr s'"
proof (induction xs arbitrary: s)
  case Nil
  then show ?case by simp
next
  case (Cons x xs)
  from Cons.prems[of x s] obtain s1 where s1: "f x s = Inr s1" by auto
  from Cons.IH[of s1] Cons.prems obtain s2 where "fold_err f xs s1 = Inr s2" by auto
  with s1 show ?case by simp
qed

lemma fold_err_Inr_all:
  "fold_err f xs s = Inr s' \<Longrightarrow> x \<in> set xs \<Longrightarrow> \<exists>a b. f x a = Inr b"
proof (induction xs arbitrary: s)
  case Nil
  then show ?case by simp
next
  case (Cons y ys)
  then show ?case by (auto split: sum.splits)
qed

lemma element_nodes_Inr:
  "elementInRange ns e \<Longrightarrow> \<exists>t. element_nodes ns e = Inr t"
  by (auto simp: elementInRange_def element_nodes_def split: prod.splits)

lemma element_nodes_Inl:
  "\<not> elementInRange ns e \<Longrightarrow> element_nodes ns e = Inl TypeError"
  by (auto simp: elementInRange_def element_nodes_def split: prod.splits)

lemma assemble_element_Inr:
  "elementInRange ns e \<Longrightarrow> \<exists>K'. assemble_element ns e K = Inr K'"
  using element_nodes_Inr[of ns e]
  by (auto simp: assemble_element_def Let_def split: prod.splits sum.splits)

lemma assemble_element_Inl:
  "\<not> elementInRange ns e \<Longrightarrow> assemble_element ns e K = Inl TypeError"
  by (simp add: assemble_element_def element_nodes_Inl)

lemma assembleSystem_Inr_iff:
  "(\<exists>KF. assembleSystem mesh = Inr KF) \<longleftrightarrow> elementsInRange mesh"
proof
  assume "\<exists>KF. assembleSystem mesh = Inr KF"
  then obtain K where K: "fold_err (assemble_element (nodes mesh)) (elements mesh) Map.empty = Inr K"
    by (auto simp: assembleSystem_def split: sum.splits)
  show "elementsInRange mesh"
    unfolding elementsInRange_def list_all_iff
  proof
    fix e assume "e \<in> set (elements mesh)"
    from fold_err_Inr_all[OF K this] obtain a b where "assemble_element (nodes mesh) e a = Inr b" by auto
    then show "elementInRange (nodes mesh) e"
      using assemble_element_Inl[of "nodes mesh" e a] by auto
  qed
next
  assume "elementsInRange mesh"
  then have "\<exists>K. fold_err (assemble_element (nodes mesh)) (elements mesh) Map.empty = Inr K"
    by (intro fold_err_total assemble_element_Inr) (simp add: elementsInRange_def list_all_iff)
  then show "\<exists>KF. assembleSystem mesh = Inr KF"
    by (auto simp: assembleSystem_def)
qed

lemma length_updateNode: "length (fst (updateNode ns K F i Te)) = length (fst Te)"
  by (cases Te) (simp add: updateNode_def Let_def)

lemma length_fold_updateNode:
  "length (fst (fold (updateNode ns K F) js Te)) = length (fst Te)"
  by (induction js arbitrary: Te) (simp_all add: length_updateNode)

lemma length_sweep: "sweep ns K F T = (T', e) \<Longrightarrow> length T' = length T"
  using length_fold_updateNode[of ns K F "[0..<length ns]" "(T, Fin 0)"]
  by (simp add: sweep_def)

lemma length_gaussSeidel:
  "gaussSeidel ns K F k tol it err T = (it', err', T') \<Longrightarrow> length T' = length T"
proof (induction ns K F k tol it err T rule: gaussSeidel.induct)
  case (1 ns K F maxIterations tolerance iteration err T)
  show ?case
  proof (cases "iteration < maxIterations \<and> js_gt err tolerance")
    case True
    obtain T1 e1 where sw: "sweep ns K F T = (T1, e1)" by (cases "sweep ns K F T")
    from "1.prems" True sw
    have "gaussSeidel ns K F maxIterations tolerance (Suc iteration) e1 T1 = (it', err', T')"
      by (subst (asm) gaussSeidel.simps) simp
    from "1.IH"[OF True sw[symmetric] this] length_sweep[OF sw] show ?thesis by simp
  next
    case False
    with "1.prems" show ?thesis by (subst (asm) gaussSeidel.simps) auto
  qed
qed

lemma solverLoop_length:
  "solverLoop mesh k tol = Inr (it, err, T) \<Longrightarrow> length T = length (nodes mesh)"
  by (auto simp: solverLoop_def split: sum.splits prod.splits dest: length_gaussSeidel)

lemma solverLoop_Inr_iff:
  "(\<exists>r. solverLoop mesh k tol = Inr r) \<longleftrightarrow> elementsInRange mesh"
proof (cases "assembleSystem mesh")
  case (Inl a)
  with assembleSystem_Inr_iff[of mesh] show ?thesis by (auto simp: solverLoop_def)
next
  case (Inr KF)
  obtain K F where "KF = (K, F)" by (cases KF)
  with Inr have "solverLoop mesh k tol = Inr (gaussSeidel (nodes mesh) K F k tol 0
      (js_add tol (Fin 1)) (map temperature (nodes mesh)))" by (simp add: solverLoop_def)
  then have "\<exists>r. solverLoop mesh k tol = Inr r" by (rule exI)
  moreover have "elementsInRange mesh" using Inr assembleSystem_Inr_iff by blast
  ultimately show ?thesis by simp
qed

lemma length_writeTemperatures:
  "length T = length ns \<Longrightarrow> length (writeTemperatures ns T) = length ns"
  by (simp add: writeTemperatures_def)

lemma localFlow_Inr:
  "elementInRange ns e \<Longrightarrow> \<exists>r. localFlow ns node e acc = Inr r"
  using element_nodes_Inr[of ns e]
  by (auto simp: localFlow_def Let_def split: prod.splits)

lemma estimateTotalHeatFlow_Inr:
  assumes "elementsInRange mesh"
  shows "\<exists>r. estimateTotalHeatFlow mesh = Inr r"
  unfolding estimateTotalHeatFlow_def
proof (rule fold_err_total)
  fix node totalFlow
  have "\<exists>r. fold_err (localFlow (nodes mesh) node)
          (filter (\<lambda>e. includes_node (nodes_elem e) (id_node node)) (elements mesh)) (Fin 0) = Inr r"
    using assms by (intro fold_err_total localFlow_Inr) (simp add: elementsInRange_def list_all_iff)
  then show "\<exists>s'. (if isBoundary node \<and> boundaryType node = Some Interior
         then case fold_err (localFlow (nodes mesh) node)
                (filter (\<lambda>e. includes_node (nodes_elem e) (id_node node)) (elements mesh)) (Fin 0) of
              Inl err \<Rightarrow> Inl err | Inr flow \<Rightarrow> Inr (js_add totalFlow flow)
         else Inr totalFlow) = Inr s'"
    by auto
qed

lemma elementCenterIn_Inr:
  "elementInRange ns e \<Longrightarrow> \<exists>b. elementCenterIn ns a1 a2 a3 a4 e = Inr b"
  using element_nodes_Inr[of ns e]
  by (auto simp: elementCenterIn_def Let_def split: prod.splits)

lemma findElementsInRegion_Inr:
  assumes "elementsInRange mesh"
  shows "\<exists>r. findElementsInRegion mesh a1 a2 a3 a4 = Inr r"
  unfolding findElementsInRegion_def
proof (rule fold_err_total)
  fix e acc assume "e \<in> set (elements mesh)"
  with assms have "elementInRange (nodes mesh) e" by (simp add: elementsInRange_def list_all_iff)
  from elementCenterIn_Inr[OF this, of a1 a2 a3 a4]
  show "\<exists>s'. (case elementCenterIn (nodes mesh) a1 a2 a3 a4 e of Inl err \<Rightarrow> Inl err
          | Inr b \<Rightarrow> Inr (if b then acc @ [e] else acc)) = Inr s'"
    by auto
qed

lemma wallFlow_Inr:
  assumes "elementsInRange mesh"
  shows "\<exists>r. wallFlow mesh minT maxT wall acc = Inr r"
proof (cases wall)
  case (Pair wy wns)
  show ?thesis
    unfolding wallFlow_def Pair prod.case Let_def
    using findElementsInRegion_Inr[OF assms]
    by (auto split: sum.splits) (metis sum.distinct(1))
qed

lemma estimateOneDimensionalHeatFlow_Inr:
  "elementsInRange mesh \<Longrightarrow> \<exists>r. estimateOneDimensionalHeatFlow mesh minT maxT = Inr r"
  unfolding estimateOneDimensionalHeatFlow_def
  by (rule fold_err_total) (rule wallFlow_Inr)

lemma calculatePsiValue_Inr:
  "elementsInRange mesh \<Longrightarrow> \<exists>r. calculatePsiValue mesh minT maxT = Inr r"
  using estimateTotalHeatFlow_Inr[of mesh] estimateOneDimensionalHeatFlow_Inr[of mesh minT maxT]
  by (auto simp: calculatePsiValue_def)

lemma elementFlux_Inr:
  "elementInRange ns e \<Longrightarrow> \<exists>r. elementFlux ns e acc = Inr r"
  using element_nodes_Inr[of ns e]
  by (auto simp: elementFlux_def Let_def split: prod.splits)

lemma calculateHeatFlux_Inr:
  "elementsInRange mesh \<Longrightarrow> \<exists>r. calculateHeatFlux mesh = Inr r"
  unfolding calculateHeatFlux_def
  by (intro fold_err_total elementFlux_Inr) (simp add: elementsInRange_def list_all_iff)

lemma elementsInRange_solved:
  "elementsInRange mesh \<Longrightarrow> length T = length (nodes mesh) \<Longrightarrow>
   elementsInRange (mesh\<lparr>nodes := writeTemperatures (nodes mesh) T\<rparr>)"
  by (simp add: elementsInRange_def list_all_iff elementInRange_def length_writeTemperatures)

lemma postProcess_Inr:
  assumes "elementsInRange mesh" and "length T = length (nodes mesh)"
  shows "\<exists>psi flux. postProcess mesh T =
           Inr \<lparr>nodes = writeTemperatures (nodes mesh) T, elements = elements mesh,
                minTemperature = js_min_list T, maxTemperature = js_max_list T,
                isotherms = isothermLevels (js_min_list T) (js_max_list T),
                psiValue = psi,
                fRsiValue = calculateFRsiValue (mesh\<lparr>nodes := writeTemperatures (nodes mesh) T\<rparr>)
                              (js_min_list T) (js_max_list T),
                fluxValues = flux\<rparr>"
proof -
  let ?solved = "mesh\<lparr>nodes := writeTemperatures (nodes mesh) T\<rparr>"
  have ok: "elementsInRange ?solved" using assms by (rule elementsInRange_solved)
  obtain psi where psi: "calculatePsiValue ?solved (js_min_list T) (js_max_list T) = Inr psi"
    using calculatePsiValue_Inr[OF ok] by blast
  obtain flux where flux: "calculateHeatFlux ?solved = Inr flux"
    using calculateHeatFlux_Inr[OF ok] by blast
  show ?thesis
    by (simp add: postProcess_def Let_def psi flux)
qed

lemma solveHeatTransfer_returns:
  assumes "elementsInRange mesh"
  shows "\<exists>res. solveHeatTransfer mesh maxIterations tolerance = Inr res"
proof -
  from assms obtain r where r: "solverLoop mesh maxIterations tolerance = Inr r"
    using solverLoop_Inr_iff by blast
  obtain it err T where [simp]: "r = (it, err, T)" by (cases r)
  from r have "length T = length (nodes mesh)" by (simp add: solverLoop_length)
  from postProcess_Inr[OF assms this] r show ?thesis
    by (auto simp: solveHeatTransfer_def)
qed

lemma solveHeatTransfer_InrD:
  assumes "solveHeatTransfer mesh maxIterations tolerance = Inr res"
  shows "\<exists>it err T. solverLoop mesh maxIterations tolerance = Inr (it, err, T) \<and>
           length T = length (nodes mesh) \<and> elementsInRange mesh \<and>
           postProcess mesh T = Inr res \<and>
           nodes res = writeTemperatures (nodes mesh) T \<and>
           elements res = elements mesh \<and>
           minTemperature res = js_min_list T \<and>
           maxTemperature res = js_max_list T \<and>
           fRsiValue res = calculateFRsiValue (mesh\<lparr>nodes := writeTemperatures (nodes mesh) T\<rparr>)
                              (js_min_list T) (js_max_list T)"
proof -
  from assms obtain r where r: "solverLoop mesh maxIterations tolerance = Inr r"
    by (auto simp: solveHeatTransfer_def split: sum.splits)
  obtain it err T where rT: "r = (it, err, T)" by (cases r)
  from r rT have len: "length T = length (nodes mesh)" by (simp add: solverLoop_length)
  from r have ok: "elementsInRange mesh" using solverLoop_Inr_iff by blast
  from assms r rT have pp: "postProcess mesh T = Inr res" by (simp add: solveHeatTransfer_def)
  from postProcess_Inr[OF ok len] pp r rT len ok show ?thesis by auto
qed

section \<open>Frame of the solver\<close>

lemma map_writeTemperatures:
  assumes "length T = length ns" and "\<And>node t. f (node\<lparr>temperature := t\<rparr>) = f node"
  shows "map f (writeTemperatures ns T) = map f ns"
  using assms(1)
proof (induction ns arbitrary: T)
  case Nil
  then show ?case by (simp add: writeTemperatures_def)
next
  case (Cons n ns)
  then obtain t T' where "T = t # T'" by (cases T) auto
  with Cons assms(2) show ?case by (simp add: writeTemperatures_def)
qed

lemma temperature_writeTemperatures:
  "length T = length ns \<Longrightarrow> map temperature (writeTemperatures ns T) = T"
proof (induction ns arbitrary: T)
  case Nil
  then show ?case by (simp add: writeTemperatures_def)
next
  case (Cons n ns)
  then obtain t T' where "T = t # T'" by (cases T) auto
  with Cons show ?case by (simp add: writeTemperatures_def)
qed

text \<open>
  Claim C9. \<open>solveHeatTransfer\<close> mutates only node temperatures: in the returned (and, by
  aliasing, the input) node list the ids, coordinates, \<open>fixed\<close> and \<open>isBoundary\<close> flags and
  boundary types are the same lists as before the call, in the same order, and the element
  list is unchanged.
\<close>

theorem solveHeatTransfer_frame:
  assumes "solveHeatTransfer mesh maxIterations tolerance = Inr res"
  shows "length (nodes res) = length (nodes mesh) \<and>
         map id_node (nodes res) = map id_node (nodes mesh) \<and>
         map x_node (nodes res) = map x_node (nodes mesh) \<and>
         map y_node (nodes res) = map y_node (nodes mesh) \<and>
         map fixed (nodes res) = map fixed (nodes mesh) \<and>
         map isBoundary (nodes res) = map isBoundary (nodes mesh) \<and>
         map boundaryType (nodes res) = map boundaryType (nodes mesh) \<and>
         elements res = elements mesh"
proof -
  from solveHeatTransfer_InrD[OF assms] obtain T where
    len: "length T = length (nodes mesh)" and
    ns: "nodes res = writeTemperatures (nodes mesh) T" and
    es: "elements res = elements mesh"
    by blast
  show ?thesis
    unfolding ns es using len
    by (simp add: map_writeTemperatures length_writeTemperatures)
qed

theorem solveHeatTransfer_frame_witness:
  "\<exists>res. solveHeatTransfer triangleMesh 1 (Fin (1 / 1000000)) = Inr res \<and>
     map id_node (nodes res) = [0, 1, 2] \<and>
     map fixed (nodes res) = [True, True, False] \<and>
     map boundaryType (nodes res) = [Some Exterior, Some Interior, None] \<and>
     elements res = elements triangleMesh"
proof -
  have "elementsInRange triangleMesh"
    by (simp add: elementsInRange_def elementInRange_def triangleMesh_def)
  then obtain res where res: "solveHeatTransfer triangleMesh 1 (Fin (1 / 1000000)) = Inr res"
    using solveHeatTransfer_returns by blast
  from solveHeatTransfer_frame[OF res] res show ?thesis
    by (simp add: triangleMesh_def)
qed

section \<open>Minimum and maximum of the solved field\<close>

lemma js_le_refl: "a \<noteq> NaN \<Longrightarrow> js_le a a"
  by (cases a) simp_all

lemma js_le_trans: "js_le a b \<Longrightarrow> js_le b c \<Longrightarrow> js_le a c"
  by (cases a; cases b; cases c) simp_all

lemma js_le_antisym: "js_le a b \<Longrightarrow> js_le b a \<Longrightarrow> a = b"
  by (cases a; cases b) simp_all

lemma js_le_total: "a \<noteq> NaN \<Longrightarrow> b \<noteq> NaN \<Longrightarrow> js_le a b \<or> js_le b a"
  by (cases a; cases b) auto

lemma js_lt_not_NaN: "js_lt a b \<Longrightarrow> a \<noteq> NaN \<and> b \<noteq> NaN"
  by (cases a; cases b) simp_all

lemma js_min_not_NaN: "js_min a b \<noteq> NaN \<Longrightarrow> a \<noteq> NaN \<and> b \<noteq> NaN"
  by (auto simp: js_min_def split: if_splits)

lemma js_max_not_NaN: "js_max a b \<noteq> NaN \<Longrightarrow> a \<noteq> NaN \<and> b \<noteq> NaN"
  by (auto simp: js_max_def split: if_splits)

lemma fold_js_min_not_NaN:
  "fold (\<lambda>x m. js_min m x) xs a \<noteq> NaN \<Longrightarrow> a \<noteq> NaN \<and> NaN \<notin> set xs"
  by (induction xs arbitrary: a) (auto dest: js_min_not_NaN)

lemma fold_js_max_not_NaN:
  "fold (\<lambda>x m. js_max m x) xs a \<noteq> NaN \<Longrightarrow> a \<noteq> NaN \<and> NaN \<notin> set xs"
  by (induction xs arbitrary: a) (auto dest: js_max_not_NaN)

lemma fold_js_min_least:
  "a \<noteq> NaN \<Longrightarrow> NaN \<notin> set xs \<Longrightarrow>
   (fold (\<lambda>x m. js_min m x) xs a = a \<or> fold (\<lambda>x m. js_min m x) xs a \<in> set xs) \<and>
   js_le (fold (\<lambda>x m. js_min m x) xs a) a \<and>
   (\<forall>x\<in>set xs. js_le (fold (\<lambda>x m. js_min m x) xs a) x)"
proof (induction xs arbitrary: a)
  case Nil
  then show ?case by (simp add: js_le_refl)
next
  case (Cons y ys)
  let ?b = "js_min a y"
  from Cons.prems have y: "y \<noteq> NaN" and ys: "NaN \<notin> set ys" by auto
  have b: "?b \<noteq> NaN" "?b = a \<or> ?b = y" "js_le ?b a" "js_le ?b y"
    using Cons.prems(1) y js_le_total[of a y] by (auto simp: js_min_def js_le_refl)
  from Cons.IH[OF b(1) ys] b show ?case
    by (auto intro: js_le_trans)
qed

lemma fold_js_max_greatest:
  "a \<noteq> NaN \<Longrightarrow> NaN \<notin> set xs \<Longrightarrow>
   (fold (\<lambda>x m. js_max m x) xs a = a \<or> fold (\<lambda>x m. js_max m x) xs a \<in> set xs) \<and>
   js_le a (fold (\<lambda>x m. js_max m x) xs a) \<and>
   (\<forall>x\<in>set xs. js_le x (fold (\<lambda>x m. js_max m x) xs a))"
proof (induction xs arbitrary: a)
  case Nil
  then show ?case by (simp add: js_le_refl)
next
  case (Cons y ys)
  let ?b = "js_max a y"
  from Cons.prems have y: "y \<noteq> NaN" and ys: "NaN \<notin> set ys" by auto
  have b: "?b \<noteq> NaN" "?b = a \<or> ?b = y" "js_le a ?b" "js_le y ?b"
    using Cons.prems(1) y js_le_total[of a y] by (auto simp: js_max_def js_le_refl)
  from Cons.IH[OF b(1) ys] b show ?case
    by (auto intro: js_le_trans)
qed

lemma js_le_PosInf: "x \<noteq> NaN \<Longrightarrow> js_le x PosInf"
  by (cases x) simp_all

lemma js_le_NegInf: "x \<noteq> NaN \<Longrightarrow> js_le NegInf x"
  by (cases x) simp_all

lemma js_min_list_minimumOf:
  assumes "js_min_list xs \<noteq> NaN" and "xs \<noteq> []"
  shows "minimumOf (js_min_list xs) xs"
proof -
  from assms(1) have nn: "NaN \<notin> set xs" unfolding js_min_list_def
    by (auto dest: fold_js_min_not_NaN)
  from fold_js_min_least[OF _ nn, of PosInf]
  have m: "js_min_list xs = PosInf \<or> js_min_list xs \<in> set xs" "\<forall>x\<in>set xs. js_le (js_min_list xs) x"
    by (auto simp: js_min_list_def)
  have "js_min_list xs \<in> set xs"
  proof (cases "js_min_list xs \<in> set xs")
    case False
    with m have p: "js_min_list xs = PosInf" by simp
    from assms(2) obtain x where x: "x \<in> set xs" by (cases xs) auto
    with m p have "js_le PosInf x" by auto
    moreover from x nn have "js_le x PosInf" by (auto intro: js_le_PosInf)
    ultimately have "x = PosInf" by (auto dest: js_le_antisym)
    with x p show ?thesis by simp
  qed simp
  with m show ?thesis by (simp add: minimumOf_def list_all_iff)
qed

lemma js_max_list_maximumOf:
  assumes "js_max_list xs \<noteq> NaN" and "xs \<noteq> []"
  shows "maximumOf (js_max_list xs) xs"
proof -
  from assms(1) have nn: "NaN \<notin> set xs" unfolding js_max_list_def
    by (auto dest: fold_js_max_not_NaN)
  from fold_js_max_greatest[OF _ nn, of NegInf]
  have m: "js_max_list xs = NegInf \<or> js_max_list xs \<in> set xs" "\<forall>x\<in>set xs. js_le x (js_max_list xs)"
    by (auto simp: js_max_list_def)
  have "js_max_list xs \<in> set xs"
  proof (cases "js_max_list xs \<in> set xs")
    case False
    with m have p: "js_max_list xs = NegInf" by simp
    from assms(2) obtain x where x: "x \<in> set xs" by (cases xs) auto
    with m p have "js_le x NegInf" by auto
    moreover from x nn have "js_le NegInf x" by (auto intro: js_le_NegInf)
    ultimately have "x = NegInf" by (auto dest: js_le_antisym)
    with x p show ?thesis by simp
  qed simp
  with m show ?thesis by (simp add: maximumOf_def list_all_iff)
qed

lemma minSurfaceTemp_fold:
  "minSurfaceTemp ns maxTemp =
     fold (\<lambda>x m. js_min m x) (map temperature (interiorBoundaryNodes ns)) maxTemp"
  unfolding minSurfaceTemp_def interiorBoundaryNodes_def
  by (induction ns arbitrary: maxTemp) simp_all

lemma minSurfaceTemp_minimumOf:
  assumes nn: "NaN \<notin> set (map temperature ns)"
      and mx: "maximumOf maxTemp (map temperature ns)"
      and ne: "interiorBoundaryNodes ns \<noteq> []"
  shows "minimumOf (minSurfaceTemp ns maxTemp) (map temperature (interiorBoundaryNodes ns))"
proof -
  let ?xs = "map temperature (interiorBoundaryNodes ns)"
  let ?r = "minSurfaceTemp ns maxTemp"
  have sub: "set ?xs \<subseteq> set (map temperature ns)" by (auto simp: interiorBoundaryNodes_def)
  with nn have nn': "NaN \<notin> set ?xs" by blast
  from mx have "maxTemp \<in> set (map temperature ns)" by (simp add: maximumOf_def)
  with nn have a: "maxTemp \<noteq> NaN" by metis
  from fold_js_min_least[OF a nn'] 
  have m: "?r = maxTemp \<or> ?r \<in> set ?xs" "\<forall>x\<in>set ?xs. js_le ?r x"
    by (auto simp: minSurfaceTemp_fold)
  have "?r \<in> set ?xs"
  proof (cases "?r \<in> set ?xs")
    case False
    with m have p: "?r = maxTemp" by simp
    from ne obtain x where x: "x \<in> set ?xs" by (cases "interiorBoundaryNodes ns") auto
    with m p have "js_le maxTemp x" by auto
    moreover from x sub mx have "js_le x maxTemp" by (auto simp: maximumOf_def list_all_iff)
    ultimately have "x = maxTemp" by (auto dest: js_le_antisym)
    with x p show ?thesis by simp
  qed simp
  with m show ?thesis by (simp add: minimumOf_def list_all_iff)
qed

section \<open>The solver on the one-triangle mesh\<close>

lemma upt3: "[0..<3] = [0, 1, 2]" by (simp add: upt_rec)

lemmas tri_eval = assembleSystem_def triangleMesh_def assemble_element_def element_nodes_def
      triangle_area_def Air_def Let_def js_sub_def addToSparseMatrix_def truthy_def
      boundaryConditions_def boundaryConditions_with_def boundaryCondition_def dirichletClear_def
      deleteFromSparseMatrix_def upt3 inf_of_sign_def solverLoop_def gaussSeidel.simps sweep_def
      updateNode_def newTemperature_def rowSum_def diagonal_def js_gt_def js_max_def

lemma triangle_loop1:
  "solverLoop triangleMesh 1 (Fin (1 / 1000000)) = Inr (1, Fin 5, [Fin 0, Fin 20, Fin 0])"
  by (simp add: tri_eval)

lemma triangle_loop2:
  "solverLoop triangleMesh 2 (Fin (1 / 1000000)) = Inr (2, Fin 0, [Fin 0, Fin 20, Fin 0])"
  by (simp add: tri_eval)

lemma triangle_result_fields:
  assumes "solveHeatTransfer triangleMesh 1 (Fin (1 / 1000000)) = Inr res"
  shows "map temperature (nodes res) = [Fin 0, Fin 20, Fin 0]"
    and "minTemperature res = Fin 0" and "maxTemperature res = Fin 20"
    and "interiorBoundaryNodes (nodes res) \<noteq> []"
proof -
  from solveHeatTransfer_InrD[OF assms] obtain it err T where
    lp: "solverLoop triangleMesh 1 (Fin (1 / 1000000)) = Inr (it, err, T)" and
    len: "length T = length (nodes triangleMesh)" and
    ns: "nodes res = writeTemperatures (nodes triangleMesh) T" and
    mn: "minTemperature res = js_min_list T" and
    mx: "maxTemperature res = js_max_list T"
    by blast
  from lp have T: "T = [Fin 0, Fin 20, Fin 0]" unfolding triangle_loop1 by simp
  show "map temperature (nodes res) = [Fin 0, Fin 20, Fin 0]"
    unfolding ns using len T temperature_writeTemperatures by metis
  show "minTemperature res = Fin 0" unfolding mn T by (simp add: js_min_list_def js_min_def)
  show "maxTemperature res = Fin 20" unfolding mx T by (simp add: js_max_list_def js_max_def)
  show "interiorBoundaryNodes (nodes res) \<noteq> []"
    unfolding ns T by (simp add: interiorBoundaryNodes_def writeTemperatures_def triangleMesh_def)
qed


section \<open>Surface temperature factor\<close>

text \<open>
  Claim C7. For a solved mesh whose maximum temperature is greater than its minimum
  temperature and which has an interior-boundary node, \<open>minTemperature\<close> and
  \<open>maxTemperature\<close> are the minimum and the maximum of the solved node temperatures, and
  \<open>fRsiValue\<close> is (the minimum temperature among the interior-boundary nodes -
  \<open>minTemperature\<close>) / (\<open>maxTemperature\<close> - \<open>minTemperature\<close>).
\<close>

theorem fRsi_value:
  assumes "solveHeatTransfer mesh maxIterations tolerance = Inr res"
      and "js_gt (maxTemperature res) (minTemperature res)"
      and "interiorBoundaryNodes (nodes res) \<noteq> []"
  shows "minimumOf (minTemperature res) (map temperature (nodes res)) \<and>
         maximumOf (maxTemperature res) (map temperature (nodes res)) \<and>
         (\<exists>tsi. minimumOf tsi (map temperature (interiorBoundaryNodes (nodes res))) \<and>
                fRsiValue res = js_div (js_sub tsi (minTemperature res))
                                       (js_sub (maxTemperature res) (minTemperature res)))"
proof -
  from solveHeatTransfer_InrD[OF assms(1)] obtain T where
    len: "length T = length (nodes mesh)" and
    ns: "nodes res = writeTemperatures (nodes mesh) T" and
    mn: "minTemperature res = js_min_list T" and
    mx: "maxTemperature res = js_max_list T" and
    fr: "fRsiValue res = calculateFRsiValue (mesh\<lparr>nodes := writeTemperatures (nodes mesh) T\<rparr>)
                              (js_min_list T) (js_max_list T)"
    by blast
  have temps: "map temperature (nodes res) = T"
    unfolding ns using len by (rule temperature_writeTemperatures)
  from assms(3) have "nodes res \<noteq> []" by (auto simp: interiorBoundaryNodes_def)
  with temps have ne: "T \<noteq> []" by auto
  from assms(2) have nn: "js_min_list T \<noteq> NaN" "js_max_list T \<noteq> NaN"
    unfolding js_gt_def mn mx by (auto dest: js_lt_not_NaN)
  have minT: "minimumOf (js_min_list T) T" using nn(1) ne by (rule js_min_list_minimumOf)
  have maxT: "maximumOf (js_max_list T) T" using nn(2) ne by (rule js_max_list_maximumOf)
  from nn(1) have noNaN: "NaN \<notin> set T"
    unfolding js_min_list_def by (auto dest: fold_js_min_not_NaN)
  have tsi: "minimumOf (minSurfaceTemp (nodes res) (js_max_list T))
               (map temperature (interiorBoundaryNodes (nodes res)))"
    using noNaN maxT assms(3) unfolding temps[symmetric]
    by (rule minSurfaceTemp_minimumOf)
  have "fRsiValue res = js_div (js_sub (minSurfaceTemp (nodes res) (js_max_list T)) (js_min_list T))
                               (js_sub (js_max_list T) (js_min_list T))"
    unfolding fr calculateFRsiValue_def ns by simp
  with tsi minT maxT show ?thesis unfolding mn mx temps by blast
qed

theorem fRsi_value_witness:
  "\<exists>res. solveHeatTransfer triangleMesh 1 (Fin (1 / 1000000)) = Inr res \<and>
     js_gt (maxTemperature res) (minTemperature res) \<and>
     interiorBoundaryNodes (nodes res) \<noteq> [] \<and>
     minimumOf (Fin 0) (map temperature (nodes res)) \<and>
     maximumOf (Fin 20) (map temperature (nodes res)) \<and>
     (\<exists>tsi. minimumOf tsi (map temperature (interiorBoundaryNodes (nodes res))) \<and>
            fRsiValue res = js_div (js_sub tsi (Fin 0)) (js_sub (Fin 20) (Fin 0)))"
proof -
  have "elementsInRange triangleMesh"
    by (simp add: elementsInRange_def elementInRange_def triangleMesh_def)
  then obtain res where res: "solveHeatTransfer triangleMesh 1 (Fin (1 / 1000000)) = Inr res"
    using solveHeatTransfer_returns by blast
  note f = triangle_result_fields[OF res]
  have gt: "js_gt (maxTemperature res) (minTemperature res)"
    by (simp add: f js_gt_def)
  from fRsi_value[OF res gt f(4)] res gt f(4) show ?thesis
    by (simp add: f(2,3))
qed

section \<open>Zero or missing diagonal entries\<close>


lemma upt4: "[0..<4] = [0, 1, 2, 3]" by (simp add: upt_rec)













section \<open>Load vector of the Robin condition\<close>

lemma boundaryCondition_load:
  "snd (boundaryCondition hi he ns j (K, F)) = F[j := loadEntry hi he (ns ! j) (F ! j)]"
  by (simp add: boundaryCondition_def loadEntry_def Let_def)

lemma fold_boundaryCondition_length:
  "length (snd (fold (boundaryCondition hi he ns) js KF)) = length (snd KF)"
proof (induction js arbitrary: KF)
  case Nil
  then show ?case by simp
next
  case (Cons j js)
  obtain K F where "KF = (K, F)" by (cases KF)
  with Cons show ?case by (simp add: boundaryCondition_load)
qed

lemma fold_boundaryCondition_other:
  "i \<notin> set js \<Longrightarrow> snd (fold (boundaryCondition hi he ns) js KF) ! i = snd KF ! i"
proof (induction js arbitrary: KF)
  case Nil
  then show ?case by simp
next
  case (Cons j js)
  obtain K F where "KF = (K, F)" by (cases KF)
  with Cons show ?case by (simp add: boundaryCondition_load)
qed

lemma fold_boundaryCondition_self:
  "distinct js \<Longrightarrow> i \<in> set js \<Longrightarrow> i < length (snd KF) \<Longrightarrow>
   snd (fold (boundaryCondition hi he ns) js KF) ! i = loadEntry hi he (ns ! i) (snd KF ! i)"
proof (induction js arbitrary: KF)
  case Nil
  then show ?case by simp
next
  case (Cons j js)
  obtain K F where KF: "KF = (K, F)" by (cases KF)
  show ?case
  proof (cases "j = i")
    case True
    with Cons.prems have "i \<notin> set js" by simp
    with True Cons.prems(3) show ?thesis
      by (simp add: fold_boundaryCondition_other KF boundaryCondition_load)
  next
    case False
    with Cons.prems have "i \<in> set js" "distinct js" by auto
    moreover have "i < length (snd (boundaryCondition hi he ns j KF))"
      using Cons.prems(3) by (simp add: KF boundaryCondition_load)
    ultimately have "snd (fold (boundaryCondition hi he ns) js (boundaryCondition hi he ns j KF)) ! i
        = loadEntry hi he (ns ! i) (snd (boundaryCondition hi he ns j KF) ! i)"
      using Cons.IH[of "boundaryCondition hi he ns j KF"] by simp
    with False show ?thesis by (simp add: KF boundaryCondition_load)
  qed
qed

lemma loadVector_entry:
  assumes "loadVector mesh = Inr F" and "i < length (nodes mesh)"
  shows "F ! i = loadEntry INTERIOR_HEAT_TRANSFER_COEFFICIENT EXTERIOR_HEAT_TRANSFER_COEFFICIENT
                   (nodes mesh ! i) (Fin 0)"
proof -
  from assms(1) obtain K where "assembleSystem mesh = Inr (K, F)"
    by (auto simp: loadVector_def split: sum.splits prod.splits)
  then obtain K0 where
    "boundaryConditions (nodes mesh) (K0, replicate (length (nodes mesh)) (Fin 0)) = (K, F)"
    by (auto simp: assembleSystem_def split: sum.splits)
  then have F: "F = snd (boundaryConditions (nodes mesh) (K0, replicate (length (nodes mesh)) (Fin 0)))"
    by simp
  show ?thesis
    unfolding F boundaryConditions_def boundaryConditions_with_def
    using assms(2) by (subst fold_boundaryCondition_self) simp_all
qed

lemma robin_loadVector:
  "loadVector robinMesh = Inr [Fin 22, Fin 154, Fin (- 5), Fin 0]"
  by (simp add: loadVector_def assembleSystem_def robinMesh_def boundaryConditions_def
      boundaryConditions_with_def boundaryCondition_def upt4 Let_def
      INTERIOR_HEAT_TRANSFER_COEFFICIENT_def EXTERIOR_HEAT_TRANSFER_COEFFICIENT_def)

text \<open>
  Claim C2, as stated, fails: the reference temperatures are the constants 20 and 0. In a
  mesh whose interior Dirichlet node is held at 22 and whose exterior Dirichlet node at -5,
  the load of the free interior node is 154 = 7.7 * 20, and that of the free exterior node
  is 0 = 25 * 0.
\<close>

theorem robin_reference_counterexample:
  "loadVector robinMesh = Inr [Fin 22, Fin 154, Fin (- 5), Fin 0] \<and>
   Fin 154 = js_mul INTERIOR_HEAT_TRANSFER_COEFFICIENT (Fin 20) \<and>
   Fin 154 \<noteq> js_mul INTERIOR_HEAT_TRANSFER_COEFFICIENT (Fin 22) \<and>
   Fin 0 \<noteq> js_mul EXTERIOR_HEAT_TRANSFER_COEFFICIENT (Fin (- 5))"
  using robin_loadVector
  by (simp add: INTERIOR_HEAT_TRANSFER_COEFFICIENT_def EXTERIOR_HEAT_TRANSFER_COEFFICIENT_def)

text \<open>
  Claim C2 (amended). For every non-fixed boundary node the load-vector entry is increased,
  from zero, by coefficient * 20 when the node is an interior node (154) and by
  coefficient * 0 when it is an exterior node (0): the reference temperatures are constants
  of the solver, which takes no temperature configuration.
\<close>

theorem robin_load_constant:
  assumes "loadVector mesh = Inr F" and "i < length (nodes mesh)"
      and "\<not> fixed (nodes mesh ! i)" and "isBoundary (nodes mesh ! i)"
  shows "(boundaryType (nodes mesh ! i) = Some Interior \<longrightarrow>
            F ! i = js_add (Fin 0) (js_mul INTERIOR_HEAT_TRANSFER_COEFFICIENT (Fin 20)) \<and> F ! i = Fin 154) \<and>
         (boundaryType (nodes mesh ! i) = Some Exterior \<longrightarrow>
            F ! i = js_add (Fin 0) (js_mul EXTERIOR_HEAT_TRANSFER_COEFFICIENT (Fin 0)) \<and> F ! i = Fin 0)"
  using loadVector_entry[OF assms(1,2)] assms(3,4)
  by (simp add: loadEntry_def INTERIOR_HEAT_TRANSFER_COEFFICIENT_def EXTERIOR_HEAT_TRANSFER_COEFFICIENT_def)

theorem robin_load_constant_witness:
  "loadVector robinMesh = Inr [Fin 22, Fin 154, Fin (- 5), Fin 0] \<and>
   1 < length (nodes robinMesh) \<and> \<not> fixed (nodes robinMesh ! 1) \<and> isBoundary (nodes robinMesh ! 1) \<and>
   boundaryType (nodes robinMesh ! 1) = Some Interior \<and>
   [Fin 22, Fin 154, Fin (- 5), Fin 0] ! 1 = Fin 154"
proof -
  have h: "1 < length (nodes robinMesh)" "\<not> fixed (nodes robinMesh ! 1)" "isBoundary (nodes robinMesh ! 1)"
    "boundaryType (nodes robinMesh ! 1) = Some Interior"
    by (simp_all add: robinMesh_def)
  from robin_load_constant[OF robin_loadVector h(1,2,3)] h robin_loadVector
  show ?thesis by simp
qed

section \<open>Reaching the iteration cap\<close>

text \<open>
  Claim C8, as stated, fails: the result has no \<open>converged\<close> flag. On the one-triangle mesh
  the run with cap 1 ends at the cap with an error of 5, above the tolerance, the run with
  cap 2 ends below the tolerance, and both return the same result.
\<close>

theorem converged_flag_counterexample:
  "solverLoop triangleMesh 1 (Fin (1 / 1000000)) = Inr (1, Fin 5, [Fin 0, Fin 20, Fin 0]) \<and>
   js_gt (Fin 5) (Fin (1 / 1000000)) \<and>
   solverLoop triangleMesh 2 (Fin (1 / 1000000)) = Inr (2, Fin 0, [Fin 0, Fin 20, Fin 0]) \<and>
   \<not> js_gt (Fin 0) (Fin (1 / 1000000)) \<and>
   solveHeatTransfer triangleMesh 1 (Fin (1 / 1000000)) =
   solveHeatTransfer triangleMesh 2 (Fin (1 / 1000000))"
  unfolding solveHeatTransfer_def triangle_loop1 triangle_loop2
  by (simp add: js_gt_def)

text \<open>
  Claim C8 (amended). If the loop of \<open>solveHeatTransfer\<close> ends at the iteration cap with the
  error still above the tolerance, the call still returns a result, without an exception: the
  result computed from the temperatures of the last sweep. (The result record has no
  \<open>converged\<close> field.)
\<close>

theorem cap_reached_returns_result:
  assumes "solverLoop mesh maxIterations tolerance = Inr (maxIterations, err, T)"
      and "js_gt err tolerance"
  shows "\<exists>res. solveHeatTransfer mesh maxIterations tolerance = Inr res \<and>
               postProcess mesh T = Inr res \<and>
               map temperature (nodes res) = T \<and> elements res = elements mesh"
proof -
  from assms(1) have ok: "elementsInRange mesh" using solverLoop_Inr_iff by blast
  from assms(1) have len: "length T = length (nodes mesh)" by (rule solverLoop_length)
  from postProcess_Inr[OF ok len] obtain res where
    res: "postProcess mesh T = Inr res" "nodes res = writeTemperatures (nodes mesh) T"
      "elements res = elements mesh"
    by force
  with assms(1) len show ?thesis
    by (simp add: solveHeatTransfer_def temperature_writeTemperatures)
qed

theorem cap_reached_returns_result_witness:
  "solverLoop triangleMesh 1 (Fin (1 / 1000000)) = Inr (1, Fin 5, [Fin 0, Fin 20, Fin 0]) \<and>
   js_gt (Fin 5) (Fin (1 / 1000000)) \<and>
   (\<exists>res. solveHeatTransfer triangleMesh 1 (Fin (1 / 1000000)) = Inr res \<and>
          map temperature (nodes res) = [Fin 0, Fin 20, Fin 0])"
proof -
  have gt: "js_gt (Fin 5) (Fin (1 / 1000000))" by (simp add: js_gt_def)
  from cap_reached_returns_result[OF triangle_loop1 gt] triangle_loop1 gt
  show ?thesis by auto
qed

section \<open>Structure of a generated mesh\<close>

lemma refineCandidate_append:
  "\<exists>extra. refineCandidate d r s h junction ij ns = ns @ extra \<and> list_all freeNode extra"
  by (cases ij) (simp add: refineCandidate_def Let_def freeNode_def)

lemma fold_refineCandidate_append:
  "\<exists>extra. fold (refineCandidate d r s h junction) ijs ns = ns @ extra \<and> list_all freeNode extra"
proof (induction ijs arbitrary: ns)
  case Nil
  then show ?case by simp
next
  case (Cons ij ijs)
  obtain e1 where e1: "refineCandidate d r s h junction ij ns = ns @ e1" "list_all freeNode e1"
    using refineCandidate_append by blast
  obtain e2 where e2: "fold (refineCandidate d r s h junction) ijs (ns @ e1) = (ns @ e1) @ e2"
    "list_all freeNode e2"
    using Cons.IH by blast
  from e1 e2 show ?case by (intro exI[of _ "e1 @ e2"]) simp
qed

lemma refineJunction_append:
  "refineJunction d ms af junction ns = Some ns' \<Longrightarrow>
   \<exists>extra. ns' = ns @ extra \<and> list_all freeNode extra"
  using fold_refineCandidate_append
  by (auto simp: refineJunction_def Let_def split: option.splits)

lemma refineAll_append:
  "refineAll d ms af junctions ns = Some ns' \<Longrightarrow>
   \<exists>extra. ns' = ns @ extra \<and> list_all freeNode extra"
proof (induction junctions arbitrary: ns)
  case Nil
  then show ?case by simp
next
  case (Cons junction junctions)
  from Cons.prems obtain ns1 where ns1: "refineJunction d ms af junction ns = Some ns1"
    and rest: "refineAll d ms af junctions ns1 = Some ns'"
    by (auto split: option.splits)
  from refineJunction_append[OF ns1] obtain e1 where e1: "ns1 = ns @ e1" "list_all freeNode e1" by blast
  from Cons.IH[OF rest] obtain e2 where e2: "ns' = ns1 @ e2" "list_all freeNode e2" by blast
  from e1 e2 show ?case by (intro exI[of _ "e1 @ e2"]) simp
qed

lemma gridNode_fixed_boundary:
  "fixed (gridNode d ti te k i j) \<Longrightarrow> isBoundary (gridNode d ti te k i j)"
  by (simp add: gridNode_def Let_def split: if_splits)

lemma gridNode_type_fixed:
  "boundaryType (gridNode d ti te k i j) = Some Interior \<or>
   boundaryType (gridNode d ti te k i j) = Some Exterior \<Longrightarrow> fixed (gridNode d ti te k i j)"
  by (simp add: gridNode_def Let_def split: if_splits)

lemma gridNodes_set:
  "node \<in> set (gridNodes d ti te cols rows) \<Longrightarrow> \<exists>k i j. node = gridNode d ti te k i j"
  by (auto simp: gridNodes_def)

lemma length_concat_const:
  "(\<And>x. x \<in> set xs \<Longrightarrow> length (f x) = c) \<Longrightarrow> length (concat (map f xs)) = length xs * c"
  by (induction xs) simp_all

lemma length_gridNodes: "length (gridNodes d ti te cols rows) = cols * rows"
  unfolding gridNodes_def by (subst length_concat_const[where c = cols]) simp_all

lemma count_lt_sub1: "count_lt (js_sub b (Fin 1)) = map_option (\<lambda>c. c - 1) (count_lt b)"
proof (cases b)
  case (Fin r)
  have "\<lceil>r - 1\<rceil> = \<lceil>r\<rceil> - 1" by linarith
  then show ?thesis by (simp add: Fin count_lt_def js_sub_def nat_diff_distrib')
qed (simp_all add: count_lt_def js_sub_def)

lemma loopCounts_sub1:
  assumes "loopCounts outer inner = Some (cols, rows)"
      and "loopCounts (js_sub outer (Fin 1)) (js_sub inner (Fin 1)) = Some (cellCols, cellRows)"
  shows "cellRows \<le> rows - 1 \<and> (cellRows \<noteq> 0 \<longrightarrow> cellCols = cols - 1)"
  using assms
  by (auto simp: loopCounts_def count_lt_sub1 split: option.splits if_splits)

lemma loopCounts_sub1_exact:
  assumes "loopCounts outer inner = Some (cols, rows)"
  shows "\<exists>cellCols. loopCounts (js_sub outer (Fin 1)) (js_sub inner (Fin 1)) = Some (cellCols, rows - 1)
           \<and> (1 < rows \<longrightarrow> cellCols = cols - 1)"
  using assms
  by (auto simp: loopCounts_def count_lt_sub1 split: option.splits if_splits)
lemma fold_err_invariant:
  "(\<And>x s s'. x \<in> set xs \<Longrightarrow> P s \<Longrightarrow> f x s = Inr s' \<Longrightarrow> P s') \<Longrightarrow> P s \<Longrightarrow>
   fold_err f xs s = Inr s' \<Longrightarrow> P s'"
proof (induction xs arbitrary: s)
  case Nil
  then show ?case by simp
next
  case (Cons x xs)
  from Cons.prems(3) obtain s1 where s1: "f x s = Inr s1" and rest: "fold_err f xs s1 = Inr s'"
    by (auto split: sum.splits)
  have "P s1" using Cons.prems(1)[of x s s1] Cons.prems(2) s1 by simp
  moreover have "P t'" if "y \<in> set xs" "P t" "f y t = Inr t'" for y t t'
    using Cons.prems(1)[of y t t'] that by simp
  ultimately show ?case using rest Cons.IH by blast
qed

lemma cellElements_InrD:
  assumes "cellElements des ns cols (i, j) es = Inr es'"
  shows "\<exists>m. es' = es @ [\<lparr>id_elem = length es,
                           nodes_elem = (j * cols + i, j * cols + i + 1, (j + 1) * cols + i + 1),
                           material = m\<rparr>,
                         \<lparr>id_elem = length es + 1,
                           nodes_elem = (j * cols + i, (j + 1) * cols + i + 1, (j + 1) * cols + i),
                           material = m\<rparr>]"
  using assms
  by (auto simp: cellElements_def Let_def split: if_splits sum.splits)

lemma cell_index_bound:
  assumes "i < cols - 1" and "j < rows - 1"
  shows "(j + 1) * cols + i + 1 < cols * (rows :: nat)"
proof -
  from assms(2) have "j + 1 \<le> rows - 1" by simp
  then have "(j + 1) * cols \<le> (rows - 1) * cols" by (rule mult_le_mono1)
  moreover have "(rows - 1) * cols + cols = rows * cols"
    using assms(2) by (cases rows) simp_all
  ultimately show ?thesis using assms(1) by (simp add: mult.commute)
qed

lemma cells_set:
  "(i, j) \<in> set (concat (map (\<lambda>j. map (\<lambda>i. (i, j)) [0..<c]) [0..<r])) \<longleftrightarrow> i < c \<and> j < r"
  by (auto simp: image_iff)

lemma triangulate_below:
  assumes "triangulate des ns cols cellCols cellRows = Inr es"
      and "cellRows \<le> rows - 1" and "cellRows \<noteq> 0 \<longrightarrow> cellCols = cols - 1"
  shows "list_all (elementBelow (cols * rows)) es"
proof -
  let ?cells = "concat (map (\<lambda>j. map (\<lambda>i. (i, j)) [0..<cellCols]) [0..<cellRows])"
  have "list_all (elementBelow (cols * rows)) es"
  proof (rule fold_err_invariant[where P = "list_all (elementBelow (cols * rows))"
        and f = "cellElements des ns cols" and xs = ?cells and s = "[]"])
    fix ij s s'
    assume mem: "ij \<in> set ?cells" and inv: "list_all (elementBelow (cols * rows)) s"
      and step: "cellElements des ns cols ij s = Inr s'"
    obtain i j where ij: "ij = (i, j)" by (cases ij)
    from mem ij have "i < cellCols" "j < cellRows" by auto
    with assms(2,3) have b: "i < cols - 1" "j < rows - 1" by auto
    have tr: "(j + 1) * cols + i + 1 < cols * rows" using b by (rule cell_index_bound)
    from cellElements_InrD[OF step[unfolded ij]] obtain m where
      s': "s' = s @ [\<lparr>id_elem = length s,
                      nodes_elem = (j * cols + i, j * cols + i + 1, (j + 1) * cols + i + 1),
                      material = m\<rparr>,
                    \<lparr>id_elem = length s + 1,
                      nodes_elem = (j * cols + i, (j + 1) * cols + i + 1, (j + 1) * cols + i),
                      material = m\<rparr>]"
      by blast
    show "list_all (elementBelow (cols * rows)) s'"
      unfolding s' using inv tr by (simp add: elementBelow_def)
  next
    show "list_all (elementBelow (cols * rows)) []" by simp
  next
    from assms(1) show "fold_err (cellElements des ns cols) ?cells [] = Inr es"
      by (simp add: triangulate_def)
  qed
  then show ?thesis .
qed

lemma generateMesh_InrD:
  assumes "generateMesh des ms af ti te = Some (Inr mesh)"
  shows "\<exists>cols rows extra cellCols cellRows.
           loopCounts (ny (domainOf des ms)) (nx (domainOf des ms)) = Some (cols, rows) \<and>
           nodes mesh = gridNodes (domainOf des ms) ti te cols rows @ extra \<and>
           list_all freeNode extra \<and>
           loopCounts (js_sub (ny (domainOf des ms)) (Fin 1)) (js_sub (nx (domainOf des ms)) (Fin 1))
             = Some (cellCols, cellRows) \<and>
           triangulate des (nodes mesh) cols cellCols cellRows = Inr (elements mesh)"
proof -
  let ?d = "domainOf des ms"
  from assms obtain cols rows where lc: "loopCounts (ny ?d) (nx ?d) = Some (cols, rows)"
    by (auto simp: generateMesh_def Let_def split: option.splits)
  from assms lc obtain ns where
    ra: "refineAll ?d ms af (findJunctions des) (gridNodes ?d ti te cols rows) = Some ns"
    by (auto simp: generateMesh_def Let_def split: option.splits)
  from assms lc ra obtain cellCols cellRows where
    lc2: "loopCounts (js_sub (ny ?d) (Fin 1)) (js_sub (nx ?d) (Fin 1)) = Some (cellCols, cellRows)"
    by (auto simp: generateMesh_def Let_def split: option.splits)
  from assms lc ra lc2 obtain es where
    tr: "triangulate des ns cols cellCols cellRows = Inr es" and
    mesh: "mesh = \<lparr>nodes = ns, elements = es\<rparr>"
    by (auto simp: generateMesh_def Let_def split: option.splits sum.splits)
  from refineAll_append[OF ra] obtain extra where
    "ns = gridNodes ?d ti te cols rows @ extra" "list_all freeNode extra" by blast
  with lc lc2 tr mesh show ?thesis by auto
qed

lemma boundaryCondition_no_robin:
  assumes "boundaryType (ns ! i) = Some Interior \<or> boundaryType (ns ! i) = Some Exterior \<longrightarrow> fixed (ns ! i)"
  shows "boundaryCondition hi he ns i KF = boundaryCondition hi' he' ns i KF"
  using assms by (cases KF) (auto simp: boundaryCondition_def Let_def)

lemma fold_cong_set:
  "(\<And>x s. x \<in> set xs \<Longrightarrow> f x s = g x s) \<Longrightarrow> fold f xs s = fold g xs s"
  by (induction xs arbitrary: s) simp_all


section \<open>The generator on valid regions\<close>

lemma boundsOf_allPoints:
  "boundsOf des = fold boundsStep (allPoints des) (PosInf, PosInf, NegInf, NegInf)"
proof -
  have step: "(\<lambda>point (x0, y0, x1, y1).
                (js_min x0 (x_pt point), js_min y0 (y_pt point),
                 js_max x1 (x_pt point), js_max y1 (y_pt point))) = boundsStep"
    by (intro ext) (simp add: boundsStep_def)
  have "fold boundsStep (concat (map points des)) b = fold (\<lambda>element. fold boundsStep (points element)) des b"
    for b
    by (induction des arbitrary: b) simp_all
  then show ?thesis
    unfolding boundsOf_def allPoints_def step by simp
qed

lemma fold_boundsStep_Fin:
  assumes "list_all finitePoint ps"
  shows "fold boundsStep ps (Fin a, Fin b, Fin c, Fin d) =
          (Fin (fold min (map (\<lambda>p. the_real (x_pt p)) ps) a),
           Fin (fold min (map (\<lambda>p. the_real (y_pt p)) ps) b),
           Fin (fold max (map (\<lambda>p. the_real (x_pt p)) ps) c),
           Fin (fold max (map (\<lambda>p. the_real (y_pt p)) ps) d))"
  using assms
proof (induction ps arbitrary: a b c d)
  case Nil
  then show ?case by simp
next
  case (Cons p ps)
  from Cons.prems obtain x y where p: "x_pt p = Fin x" "y_pt p = Fin y"
    by (auto simp: finitePoint_def is_Fin_def)
  have "boundsStep p (Fin a, Fin b, Fin c, Fin d) = (Fin (min x a), Fin (min y b), Fin (max x c), Fin (max y d))"
    by (auto simp: boundsStep_def p js_min_def js_max_def min_def max_def)
  with Cons show ?case by (simp add: p)
qed

lemma boundsOf_valid:
  assumes "allPoints des \<noteq> []" and "list_all finitePoint (allPoints des)"
  shows "boundsOf des = (Fin (Min (set (xs_of des))), Fin (Min (set (ys_of des))),
                         Fin (Max (set (xs_of des))), Fin (Max (set (ys_of des))))"
proof -
  from assms(1) obtain p ps where ps: "allPoints des = p # ps" by (cases "allPoints des") auto
  from assms(2) ps obtain x y where p: "x_pt p = Fin x" "y_pt p = Fin y"
    by (auto simp: finitePoint_def is_Fin_def)
  have first: "boundsStep p (PosInf, PosInf, NegInf, NegInf) = (Fin x, Fin y, Fin x, Fin y)"
    by (simp add: boundsStep_def p js_min_def js_max_def)
  from assms(2) ps have fin: "list_all finitePoint ps" by simp
  have xs: "xs_of des = x # map (\<lambda>p. the_real (x_pt p)) ps"
    and ys: "ys_of des = y # map (\<lambda>p. the_real (y_pt p)) ps"
    by (simp_all add: xs_of_def ys_of_def ps p)
  have m: "Min (set (xs_of des)) = fold min (map (\<lambda>p. the_real (x_pt p)) ps) x"
    "Min (set (ys_of des)) = fold min (map (\<lambda>p. the_real (y_pt p)) ps) y"
    "Max (set (xs_of des)) = fold max (map (\<lambda>p. the_real (x_pt p)) ps) x"
    "Max (set (ys_of des)) = fold max (map (\<lambda>p. the_real (y_pt p)) ps) y"
    by (simp_all only: xs ys Min.set_eq_fold Max.set_eq_fold)
  show ?thesis
    unfolding boundsOf_allPoints ps m
    by (simp add: first fold_boundsStep_Fin[OF fin])
qed

lemma validRegions_points:
  assumes "validRegions des"
  shows "allPoints des \<noteq> []" and "list_all finitePoint (allPoints des)"
proof -
  from assms obtain e es where des: "des = e # es" by (cases des) (auto simp: validRegions_def)
  with assms have "length (points e) = 2" by (simp add: validRegions_def validRegion_def)
  then have "points e \<noteq> []" by auto
  then show "allPoints des \<noteq> []" by (simp add: allPoints_def des)
  from assms show "list_all finitePoint (allPoints des)"
    by (auto simp: validRegions_def validRegion_def allPoints_def list_all_iff)
qed

lemma Min_le_Max_list: "xs \<noteq> [] \<Longrightarrow> Min (set xs) \<le> Max (set (xs :: real list))"
  by (simp add: Min_le_iff)

lemma domainOf_valid:
  assumes "validRegions des" and "0 < ms"
  shows "domainOf des (Fin ms) =
           \<lparr>minX = Fin (Min (set (xs_of des)) - 5 * ms), minY = Fin (Min (set (ys_of des)) - 5 * ms),
            maxX = Fin (Max (set (xs_of des)) + 5 * ms), maxY = Fin (Max (set (ys_of des)) + 5 * ms),
            nx = Fin (of_int (\<lceil>domainWidth des ms / ms\<rceil> + 1)),
            ny = Fin (of_int (\<lceil>domainHeight des ms / ms\<rceil> + 1))\<rparr>"
  using assms(2) boundsOf_valid[OF validRegions_points[OF assms(1)]]
  by (simp add: domainOf_def Let_def js_sub_def domainWidth_def domainHeight_def mult.commute)

lemma domain_ceil_pos:
  assumes "validRegions des" and "0 < ms"
  shows "10 \<le> \<lceil>domainWidth des ms / ms\<rceil>" and "10 \<le> \<lceil>domainHeight des ms / ms\<rceil>"
proof -
  have x: "xs_of des \<noteq> []" and y: "ys_of des \<noteq> []"
    using validRegions_points(1)[OF assms(1)] by (simp_all add: xs_of_def ys_of_def)
  have "10 * ms \<le> domainWidth des ms" using Min_le_Max_list[OF x] by (simp add: domainWidth_def)
  then have "10 \<le> domainWidth des ms / ms" using assms(2) by (simp add: pos_le_divide_eq)
  then show "10 \<le> \<lceil>domainWidth des ms / ms\<rceil>" by linarith
  have "10 * ms \<le> domainHeight des ms" using Min_le_Max_list[OF y] by (simp add: domainHeight_def)
  then have "10 \<le> domainHeight des ms / ms" using assms(2) by (simp add: pos_le_divide_eq)
  then show "10 \<le> \<lceil>domainHeight des ms / ms\<rceil>" by linarith
qed

lemma loopCounts_valid:
  assumes "validRegions des" and "0 < ms"
  shows "loopCounts (ny (domainOf des (Fin ms))) (nx (domainOf des (Fin ms)))
           = Some (columns des ms, rowsOf des ms)"
    and "11 \<le> columns des ms" and "11 \<le> rowsOf des ms"
proof -
  let ?w = "\<lceil>domainWidth des ms / ms\<rceil>" and ?h = "\<lceil>domainHeight des ms / ms\<rceil>"
  note c = domain_ceil_pos[OF assms]
  from c show "11 \<le> columns des ms" "11 \<le> rowsOf des ms"
    unfolding columns_def rowsOf_def by linarith+
  from c have "nat (?h + 1) \<noteq> 0" by linarith
  then show "loopCounts (ny (domainOf des (Fin ms))) (nx (domainOf des (Fin ms)))
           = Some (columns des ms, rowsOf des ms)"
    by (simp add: domainOf_valid[OF assms] loopCounts_def count_lt_def columns_def rowsOf_def)
qed
lemma refineJunction_valid:
  assumes "0 < ms" and "0 < af"
  shows "\<exists>ns'. refineJunction d (Fin ms) (Fin af) junction ns = Some ns'"
  using assms by (simp add: refineJunction_def Let_def count_le_def)

lemma refineAll_valid:
  assumes "0 < ms" and "0 < af"
  shows "\<exists>ns'. refineAll d (Fin ms) (Fin af) junctions ns = Some ns'"
proof (induction junctions arbitrary: ns)
  case Nil
  then show ?case by simp
next
  case (Cons junction junctions)
  from refineJunction_valid[OF assms] obtain ns1 where
    "refineJunction d (Fin ms) (Fin af) junction ns = Some ns1" by blast
  with Cons.IH[of ns1] show ?case by simp
qed

lemma findMaterialAtPoint_valid:
  "list_all validRegion des \<Longrightarrow> \<exists>m. findMaterialAtPoint des px py = Inr m"
proof (induction des)
  case Nil
  then show ?case by simp
next
  case (Cons e es)
  from Cons.prems have "length (points e) = 2" by (simp add: validRegion_def)
  then obtain p1 p2 where "points e = [p1, p2]"
    by (cases "points e"; cases "tl (points e)") auto
  with Cons show ?case
    by (auto split: element_type.splits option.splits)
qed

lemma cellElements_valid:
  assumes "list_all validRegion des" and "(j + 1) * cols + i + 1 < length ns"
  shows "\<exists>es'. cellElements des ns cols (i, j) es = Inr es'"
proof -
  from assms(2) have "j * cols + i < length ns" by simp
  with assms(2) show ?thesis
    using findMaterialAtPoint_valid[OF assms(1)]
    by (simp add: cellElements_def Let_def split: sum.splits) (metis sum.exhaust sum.distinct(1))
qed

lemma fold_cellElements_length:
  "fold_err (cellElements des ns cols) cells es0 = Inr es \<Longrightarrow>
   length es = length es0 + 2 * length cells"
proof (induction cells arbitrary: es0)
  case Nil
  then show ?case by simp
next
  case (Cons ij cells)
  obtain i j where ij: "ij = (i, j)" by (cases ij)
  from Cons.prems obtain es1 where s1: "cellElements des ns cols (i, j) es0 = Inr es1"
    and rest: "fold_err (cellElements des ns cols) cells es1 = Inr es"
    by (auto simp: ij split: sum.splits)
  from cellElements_InrD[OF s1] have "length es1 = length es0 + 2" by auto
  with Cons.IH[OF rest] show ?case by simp
qed

lemma length_cells:
  "length (concat (map (\<lambda>j. map (\<lambda>i. (i, j)) [0..<c]) [0..<r])) = c * r"
  by (subst length_concat_const[where c = c]) (simp_all add: mult.commute)

lemma triangulate_valid:
  assumes "list_all validRegion des" and "cols * rows \<le> length ns"
  shows "\<exists>es. triangulate des ns cols (cols - 1) (rows - 1) = Inr es \<and>
              length es = 2 * ((cols - 1) * (rows - 1))"
proof -
  let ?cells = "concat (map (\<lambda>j. map (\<lambda>i. (i, j)) [0..<cols - 1]) [0..<rows - 1])"
  have "\<exists>es. fold_err (cellElements des ns cols) ?cells [] = Inr es"
  proof (rule fold_err_total)
    fix ij s assume mem: "ij \<in> set ?cells"
    obtain i j where ij: "ij = (i, j)" by (cases ij)
    from mem ij have "i < cols - 1" "j < rows - 1" by auto
    then have "(j + 1) * cols + i + 1 < cols * rows" by (rule cell_index_bound)
    with assms(2) have "(j + 1) * cols + i + 1 < length ns" by simp
    from cellElements_valid[OF assms(1) this] show "\<exists>s'. cellElements des ns cols ij s = Inr s'"
      by (simp add: ij)
  qed
  then obtain es where es: "fold_err (cellElements des ns cols) ?cells [] = Inr es" by blast
  from fold_cellElements_length[OF es] have "length es = 2 * ((cols - 1) * (rows - 1))"
    by (simp add: length_cells)
  with es show ?thesis by (simp add: triangulate_def)
qed

lemma generateMesh_valid:
  assumes v: "validRegions des" and ms: "0 < ms" and af: "0 < af"
  shows "\<exists>mesh extra.
           generateMesh des (Fin ms) (Fin af) ti te = Some (Inr mesh) \<and>
           nodes mesh = gridNodes (domainOf des (Fin ms)) ti te (columns des ms) (rowsOf des ms) @ extra \<and>
           length (elements mesh) = 2 * ((columns des ms - 1) * (rowsOf des ms - 1))"
proof -
  let ?d = "domainOf des (Fin ms)"
  let ?c = "columns des ms" and ?r = "rowsOf des ms"
  note lc = loopCounts_valid[OF v ms]
  obtain ns where ra: "refineAll ?d (Fin ms) (Fin af) (findJunctions des) (gridNodes ?d ti te ?c ?r) = Some ns"
    using refineAll_valid[OF ms af] by blast
  from refineAll_append[OF ra] obtain extra where ns: "ns = gridNodes ?d ti te ?c ?r @ extra" by blast
  from loopCounts_sub1_exact[OF lc(1)] lc(3)
  have lc2: "loopCounts (js_sub (ny ?d) (Fin 1)) (js_sub (nx ?d) (Fin 1)) = Some (?c - 1, ?r - 1)"
    by auto
  have "?c * ?r \<le> length ns" by (simp add: ns length_gridNodes)
  from triangulate_valid[OF _ this] v obtain es where
    es: "triangulate des ns ?c (?c - 1) (?r - 1) = Inr es" "length es = 2 * ((?c - 1) * (?r - 1))"
    by (auto simp: validRegions_def)
  have "generateMesh des (Fin ms) (Fin af) ti te = Some (Inr \<lparr>nodes = ns, elements = es\<rparr>)"
    unfolding generateMesh_def Let_def lc(1) option.case prod.case ra lc2 es(1) sum.case ..
  with ns es(2) show ?thesis by auto
qed

lemma sqrt_lt_half: "sqrt a < 1 / 2 \<longleftrightarrow> a < 1 / 4"
proof -
  have h: "sqrt (1 / 4) = 1 / 2" by (simp add: real_sqrt_divide)
  have "sqrt a < 1 / 2 \<longleftrightarrow> sqrt a < sqrt (1 / 4)" by (simp only: h)
  also have "\<dots> \<longleftrightarrow> a < 1 / 4" by (rule real_sqrt_less_iff)
  finally show ?thesis .
qed

lemma distance_lt_half:
  "js_lt (distance (Fin a) (Fin b) (Fin c) (Fin d)) (Fin (1 / 2)) \<longleftrightarrow>
   (a - c) * (a - c) + (b - d) * (b - d) < 1 / 4"
proof -
  let ?s = "(a - c) * (a - c) + (b - d) * (b - d)"
  have nn: "\<not> ?s < 0" by (simp add: not_less)
  have "distance (Fin a) (Fin b) (Fin c) (Fin d) = js_sqrt (Fin ?s)"
    by (simp add: distance_def js_pow2_def js_sub_def)
  also have "\<dots> = Fin (sqrt ?s)" using nn by (simp only: js_sqrt.simps if_False)
  finally have "js_lt (distance (Fin a) (Fin b) (Fin c) (Fin d)) (Fin (1 / 2)) \<longleftrightarrow> sqrt ?s < 1 / 2"
    by (simp only: js_lt.simps)
  then show ?thesis by (simp only: sqrt_lt_half)
qed

lemma example_junctions: "findJunctions exampleRegions = [\<lparr>x_pt = Fin 10, y_pt = Fin 10\<rparr>]"
  by (simp add: findJunctions_def exampleRegions_def junctionStep_def distance_lt_half)

lemma example_valid: "validRegions exampleRegions"
  by (simp add: validRegions_def validRegion_def exampleRegions_def finitePoint_def)
lemma upt9: "[0..<9] = [0, 1, 2, 3, 4, 5, 6, 7, 8]" by (simp add: upt_rec)

lemma postProcess_empty: "postProcess emptyMesh [] = Inr emptyResult"
  by (simp add: postProcess_def emptyMesh_def emptyResult_def writeTemperatures_def
      js_min_list_def js_max_list_def calculatePsiValue_def estimateTotalHeatFlow_def
      estimateOneDimensionalHeatFlow_def horizontalWalls_def calculateHeatFlux_def
      calculateFRsiValue_def minSurfaceTemp_def isothermLevels_def js_sub_def Let_def upt9
      inf_of_sign_def)

lemma solve_empty: "solveHeatTransfer emptyMesh k tol = Inr emptyResult"
proof -
  have "elementsInRange emptyMesh" by (simp add: elementsInRange_def emptyMesh_def)
  then obtain r where r: "solverLoop emptyMesh k tol = Inr r" using solverLoop_Inr_iff by blast
  obtain it err T where rT: "r = (it, err, T)" by (cases r)
  from r rT have "length T = length (nodes emptyMesh)" by (simp add: solverLoop_length)
  then have "T = []" by (simp add: emptyMesh_def)
  with r rT show ?thesis by (simp add: solveHeatTransfer_def postProcess_empty)
qed

lemma generateMesh_empty:
  assumes "0 < ms"
  shows "generateMesh [] (Fin ms) af ti te = Some (Inr emptyMesh)"
  using assms
  by (simp add: generateMesh_def domainOf_def boundsOf_def Let_def js_sub_def loopCounts_def
      count_lt_def gridNodes_def findJunctions_def triangulate_def emptyMesh_def)

lemma example_columns: "columns exampleRegions 10 = 13" "rowsOf exampleRegions 10 = 14"
  by (simp_all add: columns_def rowsOf_def domainWidth_def domainHeight_def xs_of_def ys_of_def
      allPoints_def exampleRegions_def)

lemma example_mesh:
  "\<exists>mesh. generateMesh exampleRegions (Fin 10) (Fin (3 / 10)) (Fin 20) (Fin 0) = Some (Inr mesh)"
proof -
  have "(0 :: real) < 10" "(0 :: real) < 3 / 10" by simp_all
  from generateMesh_valid[OF example_valid this] show ?thesis by blast
qed

section \<open>The empty region list\<close>

text \<open>
  Claim C3, as stated, fails: the pipeline has no \<open>InvalidGeometry\<close> error. For the empty
  region list \<open>generateMesh\<close> returns the empty mesh, and \<open>solveHeatTransfer\<close> solves it and
  returns a result (minimum \<open>+Infinity\<close>, maximum \<open>-Infinity\<close>, isotherms and fRsi \<open>NaN\<close>).
\<close>

theorem empty_regions_counterexample:
  "generateMesh [] (Fin 3) (Fin (3 / 10)) (Fin 20) (Fin 0) = Some (Inr emptyMesh) \<and>
   solveHeatTransfer emptyMesh 1000 (Fin (1 / 1000000)) = Inr emptyResult"
  by (simp add: generateMesh_empty solve_empty)

text \<open>
  Claim C3 (amended). For the empty region list and every positive mesh size,
  \<open>generateMesh\<close> signals no error and returns the empty mesh, on which \<open>solveHeatTransfer\<close>
  returns a result, as it does on every mesh with zero elements.
\<close>

theorem empty_regions_no_error:
  assumes "0 < ms"
  shows "generateMesh [] (Fin ms) af ti te = Some (Inr emptyMesh) \<and>
         solveHeatTransfer emptyMesh maxIterations tolerance = Inr emptyResult \<and>
         (\<forall>mesh. elements mesh = [] \<longrightarrow> (\<exists>res. solveHeatTransfer mesh maxIterations tolerance = Inr res))"
proof -
  have "\<exists>res. solveHeatTransfer mesh maxIterations tolerance = Inr res" if "elements mesh = []" for mesh
    using that by (intro solveHeatTransfer_returns) (simp add: elementsInRange_def)
  with generateMesh_empty[OF assms] solve_empty show ?thesis by blast
qed

theorem empty_regions_no_error_witness:
  "(0 :: real) < 3 \<and>
   generateMesh [] (Fin 3) (Fin (3 / 10)) (Fin 20) (Fin 0) = Some (Inr emptyMesh) \<and>
   solveHeatTransfer emptyMesh 1000 (Fin (1 / 1000000)) = Inr emptyResult"
proof -
  have h: "(0 :: real) < 3" by simp
  from empty_regions_no_error[OF h] h show ?thesis by blast
qed

section \<open>Invariants of a generated mesh\<close>

text \<open>
  Claim C4. In every mesh returned by \<open>generateMesh\<close> every fixed node is a boundary node,
  and the three node indices of every element are less than the number of nodes.
\<close>

theorem generated_mesh_invariant:
  assumes "generateMesh des ms af ti te = Some (Inr mesh)"
  shows "list_all (\<lambda>node. fixed node \<longrightarrow> isBoundary node) (nodes mesh) \<and>
         list_all (elementBelow (length (nodes mesh))) (elements mesh)"
proof -
  from generateMesh_InrD[OF assms] obtain cols rows extra cellCols cellRows where
    a: "loopCounts (ny (domainOf des ms)) (nx (domainOf des ms)) = Some (cols, rows)"
       "nodes mesh = gridNodes (domainOf des ms) ti te cols rows @ extra"
       "list_all freeNode extra"
       "loopCounts (js_sub (ny (domainOf des ms)) (Fin 1)) (js_sub (nx (domainOf des ms)) (Fin 1))
             = Some (cellCols, cellRows)"
       "triangulate des (nodes mesh) cols cellCols cellRows = Inr (elements mesh)"
    by blast
  have "list_all (\<lambda>node. fixed node \<longrightarrow> isBoundary node) (nodes mesh)"
    unfolding a(2) using a(3)
    by (auto simp: list_all_iff freeNode_def dest!: gridNodes_set intro: gridNode_fixed_boundary)
  moreover
  from loopCounts_sub1[OF a(1,4)] have "cellRows \<le> rows - 1" "cellRows \<noteq> 0 \<longrightarrow> cellCols = cols - 1"
    by auto
  from triangulate_below[OF a(5) this]
  have "list_all (elementBelow (cols * rows)) (elements mesh)" .
  then have "list_all (elementBelow (length (nodes mesh))) (elements mesh)"
    unfolding a(2) by (auto simp: list_all_iff elementBelow_def length_gridNodes)
  ultimately show ?thesis by simp
qed

theorem generated_mesh_invariant_witness:
  "\<exists>mesh. generateMesh exampleRegions (Fin 10) (Fin (3 / 10)) (Fin 20) (Fin 0) = Some (Inr mesh) \<and>
     list_all (\<lambda>node. fixed node \<longrightarrow> isBoundary node) (nodes mesh) \<and>
     list_all (elementBelow (length (nodes mesh))) (elements mesh)"
proof -
  from example_mesh obtain mesh where
    m: "generateMesh exampleRegions (Fin 10) (Fin (3 / 10)) (Fin 20) (Fin 0) = Some (Inr mesh)" by blast
  from generated_mesh_invariant[OF m] m show ?thesis by blast
qed





text \<open>
  Claim C6. In every mesh returned by \<open>generateMesh\<close> the node list is the grid of
  \<open>cols * rows\<close> nodes followed by the nodes of the adaptive refinement, which are free nodes,
  and every node index of every element is less than \<open>cols * rows\<close>: no element references a
  refinement node.
\<close>

theorem refinement_nodes_disconnected:
  assumes "generateMesh des ms af ti te = Some (Inr mesh)"
  shows "\<exists>cols rows extra.
           loopCounts (ny (domainOf des ms)) (nx (domainOf des ms)) = Some (cols, rows) \<and>
           nodes mesh = gridNodes (domainOf des ms) ti te cols rows @ extra \<and>
           length (gridNodes (domainOf des ms) ti te cols rows) = cols * rows \<and>
           list_all freeNode extra \<and>
           list_all (elementBelow (cols * rows)) (elements mesh)"
proof -
  from generateMesh_InrD[OF assms] obtain cols rows extra cellCols cellRows where
    a: "loopCounts (ny (domainOf des ms)) (nx (domainOf des ms)) = Some (cols, rows)"
       "nodes mesh = gridNodes (domainOf des ms) ti te cols rows @ extra"
       "list_all freeNode extra"
       "loopCounts (js_sub (ny (domainOf des ms)) (Fin 1)) (js_sub (nx (domainOf des ms)) (Fin 1))
             = Some (cellCols, cellRows)"
       "triangulate des (nodes mesh) cols cellCols cellRows = Inr (elements mesh)"
    by blast
  from loopCounts_sub1[OF a(1,4)] have "cellRows \<le> rows - 1" "cellRows \<noteq> 0 \<longrightarrow> cellCols = cols - 1"
    by auto
  from triangulate_below[OF a(5) this] a(1,2,3) show ?thesis
    by (auto simp: length_gridNodes)
qed

theorem refinement_nodes_disconnected_witness:
  "findJunctions exampleRegions = [\<lparr>x_pt = Fin 10, y_pt = Fin 10\<rparr>] \<and>
   (\<exists>mesh extra. generateMesh exampleRegions (Fin 10) (Fin (3 / 10)) (Fin 20) (Fin 0) = Some (Inr mesh) \<and>
      nodes mesh = gridNodes (domainOf exampleRegions (Fin 10)) (Fin 20) (Fin 0) 13 14 @ extra \<and>
      list_all freeNode extra \<and>
      list_all (elementBelow (13 * 14)) (elements mesh))"
proof -
  from example_mesh obtain mesh where
    m: "generateMesh exampleRegions (Fin 10) (Fin (3 / 10)) (Fin 20) (Fin 0) = Some (Inr mesh)" by blast
  have lc: "loopCounts (ny (domainOf exampleRegions (Fin 10))) (nx (domainOf exampleRegions (Fin 10)))
      = Some (13, 14)"
    using loopCounts_valid(1)[OF example_valid, of 10] by (simp add: example_columns)
  from refinement_nodes_disconnected[OF m] lc m example_junctions show ?thesis
    by auto
qed

text \<open>
  Claim C10. In every mesh returned by \<open>generateMesh\<close> every node whose boundary type is
  interior or exterior is fixed; so the mesh has no Robin node, and the boundary conditions
  of the solver do not depend on the two surface heat-transfer coefficients (which the
  solver otherwise uses only in the one-dimensional resistance of the PSI estimate).
\<close>

theorem generated_mesh_no_robin:
  assumes "generateMesh des ms af ti te = Some (Inr mesh)"
  shows "list_all (\<lambda>node. boundaryType node = Some Interior \<or> boundaryType node = Some Exterior
                      \<longrightarrow> fixed node) (nodes mesh) \<and>
         robinNodes (nodes mesh) = [] \<and>
         (\<forall>hi he KF. boundaryConditions_with hi he (nodes mesh) KF = boundaryConditions (nodes mesh) KF)"
proof -
  from generateMesh_InrD[OF assms] obtain cols rows extra where
    a: "nodes mesh = gridNodes (domainOf des ms) ti te cols rows @ extra"
       "list_all freeNode extra"
    by blast
  have all: "list_all (\<lambda>node. boundaryType node = Some Interior \<or> boundaryType node = Some Exterior
                      \<longrightarrow> fixed node) (nodes mesh)"
    unfolding a(1) using a(2)
    by (auto simp: list_all_iff freeNode_def dest!: gridNodes_set intro: gridNode_type_fixed)
  then have "robinNodes (nodes mesh) = []"
    by (auto simp: robinNodes_def list_all_iff filter_empty_conv)
  moreover have "boundaryConditions_with hi he (nodes mesh) KF = boundaryConditions (nodes mesh) KF"
    for hi he KF
    unfolding boundaryConditions_def boundaryConditions_with_def
  proof (rule fold_cong_set)
    fix i s assume "i \<in> set [0..<length (nodes mesh)]"
    then have "nodes mesh ! i \<in> set (nodes mesh)" by simp
    with all have "boundaryType (nodes mesh ! i) = Some Interior \<or>
        boundaryType (nodes mesh ! i) = Some Exterior \<longrightarrow> fixed (nodes mesh ! i)"
      by (simp add: list_all_iff)
    then show "boundaryCondition hi he (nodes mesh) i s =
        boundaryCondition INTERIOR_HEAT_TRANSFER_COEFFICIENT EXTERIOR_HEAT_TRANSFER_COEFFICIENT (nodes mesh) i s"
      by (rule boundaryCondition_no_robin)
  qed
  ultimately show ?thesis using all by simp
qed
theorem generated_mesh_no_robin_witness:
  "\<exists>mesh. generateMesh exampleRegions (Fin 10) (Fin (3 / 10)) (Fin 20) (Fin 0) = Some (Inr mesh) \<and>
     robinNodes (nodes mesh) = [] \<and>
     boundaryConditions_with (Fin 1) (Fin 2) (nodes mesh) (Map.empty, replicate (length (nodes mesh)) (Fin 0))
       = boundaryConditions (nodes mesh) (Map.empty, replicate (length (nodes mesh)) (Fin 0))"
proof -
  from example_mesh obtain mesh where
    m: "generateMesh exampleRegions (Fin 10) (Fin (3 / 10)) (Fin 20) (Fin 0) = Some (Inr mesh)" by blast
  from generated_mesh_no_robin[OF m] m show ?thesis by blast
qed

section \<open>Node ids and the index factor of the generator\<close>

text \<open>
  Two facts that tie the model of the generator to the source: the ids of the grid nodes
  are the running counter \<^verbatim>\<open>nodeId++\<close>, and whenever the element loop runs, the number of
  nodes of a grid row, which the model uses as index factor, is the number \<open>nx\<close>.
\<close>

lemma id_gridNode: "id_node (gridNode d ti te k i j) = k"
  by (simp add: gridNode_def Let_def)

lemma row_ids: "map (\<lambda>i. a + i) [0..<c] = [a..<a + c]"
  by (induction c) simp_all

lemma concat_rows: "concat (map (\<lambda>j. map (\<lambda>i. j * cols + i) [0..<cols]) [0..<rows]) = [0..<rows * cols]"
proof (induction rows)
  case 0
  then show ?case by simp
next
  case (Suc rows)
  have "[0..<Suc rows * cols] = [0..<rows * cols] @ [rows * cols..<rows * cols + cols]"
    using upt_add_eq_append[of 0 "rows * cols" cols] by (simp only: mult_Suc add.commute add_0)
  with Suc show ?case by (simp only: upt_Suc_append le0 if_True map_append concat_append concat.simps
      list.map append_Nil2 row_ids)
qed

lemma grid_ids: "map id_node (gridNodes d ti te cols rows) = [0..<cols * rows]"
proof -
  have "map id_node (gridNodes d ti te cols rows) =
        concat (map (\<lambda>j. map (\<lambda>i. j * cols + i) [0..<cols]) [0..<rows])"
    by (simp add: gridNodes_def map_concat comp_def id_gridNode)
  then show ?thesis by (simp only: concat_rows mult.commute)
qed

lemma nx_shape: "\<exists>q. nx (domainOf des ms) = js_add (js_ceil q) (Fin 1)"
  by (cases "boundsOf des") (auto simp: domainOf_def Let_def)

lemma count_lt_ceil_plus:
  assumes "count_lt (js_add (js_ceil q) (Fin 1)) = Some cols" and "1 < cols"
  shows "js_add (js_ceil q) (Fin 1) = Fin (of_nat cols)"
proof (cases q)
  case (Fin a)
  with assms(1) have "cols = nat (\<lceil>a\<rceil> + 1)" by (simp add: count_lt_def)
  with assms(2) have "of_nat cols = (of_int (\<lceil>a\<rceil> + 1) :: real)" by simp
  with Fin show ?thesis by simp
next
  case NaN
  with assms show ?thesis by (simp add: count_lt_def)
next
  case NegInf
  with assms show ?thesis by (simp add: count_lt_def)
next
  case PosInf
  with assms show ?thesis by (simp add: count_lt_def)
qed

lemma index_factor_is_nx:
  assumes "loopCounts (ny (domainOf des ms)) (nx (domainOf des ms)) = Some (cols, rows)"
      and "loopCounts (js_sub (ny (domainOf des ms)) (Fin 1)) (js_sub (nx (domainOf des ms)) (Fin 1))
             = Some (cellCols, cellRows)"
      and "cellCols \<noteq> 0" and "cellRows \<noteq> 0"
  shows "nx (domainOf des ms) = Fin (of_nat cols)"
proof -
  obtain q where nx: "nx (domainOf des ms) = js_add (js_ceil q) (Fin 1)"
    using nx_shape by blast
  from assms have c: "count_lt (nx (domainOf des ms)) = Some cols \<and> 1 < cols"
    by (auto simp: loopCounts_def count_lt_sub1 split: option.splits if_splits)
  then show ?thesis unfolding nx by (auto intro: count_lt_ceil_plus)
qed

end
